theory Spec2Isabelle
  imports Complex_Main "HOL-Library.Word"
begin

section \<open>Data model (src/types/pdf-editor.ts)\<close>

text \<open>
  JavaScript numbers that hold coordinates, sizes and the zoom factor are embedded as
  \<^typ>\<open>real\<close>, a finite double being the real it denotes. The arithmetic of the handlers
  (\<open>+\<close>, \<open>-\<close>, \<open>/\<close>, \<open>Math.min\<close>, \<open>Math.max\<close>, \<open>Math.abs\<close>) is written as the expression
  the code evaluates; in the resize of a signature, where a result is compared with
  another sum, every operation is rounded as JavaScript rounds it. Page numbers
  are \<^typ>\<open>int\<close>. Identifiers, data URLs and colours are \<^typ>\<open>string\<close>; a value of type
  \<open>string | null\<close> is a \<^typ>\<open>string option\<close>. The content of a text annotation, which the
  user types, is a JavaScript string as such: a sequence of 16-bit code units.
\<close>

type_synonym js_string = "16 word list"

datatype Tool = Tool_select | Tool_sign | Tool_text | Tool_highlight

record SignatureData =
  sig_id :: string
  sig_x :: real
  sig_y :: real
  sig_width :: real
  sig_height :: real
  sig_dataUrl :: string
  sig_page :: int

record TextAnnotation =
  txt_id :: string
  txt_x :: real
  txt_y :: real
  txt_text :: js_string
  txt_fontSize :: real
  txt_color :: string
  txt_page :: int

record HighlightAnnotation =
  hl_id :: string
  hl_x :: real
  hl_y :: real
  hl_width :: real
  hl_height :: real
  hl_page :: int

record Annotation =
  signatures :: "SignatureData list"
  texts :: "TextAnnotation list"
  highlights :: "HighlightAnnotation list"

text \<open>\<open>Omit<SignatureData, 'id'>\<close> and its siblings: the argument of the add handlers.\<close>

record SignatureInit =
  si_x :: real
  si_y :: real
  si_width :: real
  si_height :: real
  si_dataUrl :: string
  si_page :: int

record TextInit =
  ti_x :: real
  ti_y :: real
  ti_text :: js_string
  ti_fontSize :: real
  ti_color :: string
  ti_page :: int

record HighlightInit =
  hi_x :: real
  hi_y :: real
  hi_width :: real
  hi_height :: real
  hi_page :: int

text \<open>\<open>Partial<SignatureData>\<close> and \<open>Partial<TextAnnotation>\<close>: every field optional.\<close>

record SignaturePartial =
  sp_id :: "string option"
  sp_x :: "real option"
  sp_y :: "real option"
  sp_width :: "real option"
  sp_height :: "real option"
  sp_dataUrl :: "string option"
  sp_page :: "int option"

record TextPartial =
  tp_id :: "string option"
  tp_x :: "real option"
  tp_y :: "real option"
  tp_text :: "js_string option"
  tp_fontSize :: "real option"
  tp_color :: "string option"
  tp_page :: "int option"

definition no_sig_updates :: SignaturePartial where
  "no_sig_updates = \<lparr>sp_id = None, sp_x = None, sp_y = None, sp_width = None,
     sp_height = None, sp_dataUrl = None, sp_page = None\<rparr>"

definition no_txt_updates :: TextPartial where
  "no_txt_updates = \<lparr>tp_id = None, tp_x = None, tp_y = None, tp_text = None,
     tp_fontSize = None, tp_color = None, tp_page = None\<rparr>"

text \<open>The object spread \<open>{ ...s, ...updates }\<close>: a field of \<open>updates\<close> that is present wins.\<close>

definition spread_sig :: "SignatureData \<Rightarrow> SignaturePartial \<Rightarrow> SignatureData" where
  "spread_sig s u =
     \<lparr>sig_id = (case sp_id u of None \<Rightarrow> sig_id s | Some v \<Rightarrow> v),
      sig_x = (case sp_x u of None \<Rightarrow> sig_x s | Some v \<Rightarrow> v),
      sig_y = (case sp_y u of None \<Rightarrow> sig_y s | Some v \<Rightarrow> v),
      sig_width = (case sp_width u of None \<Rightarrow> sig_width s | Some v \<Rightarrow> v),
      sig_height = (case sp_height u of None \<Rightarrow> sig_height s | Some v \<Rightarrow> v),
      sig_dataUrl = (case sp_dataUrl u of None \<Rightarrow> sig_dataUrl s | Some v \<Rightarrow> v),
      sig_page = (case sp_page u of None \<Rightarrow> sig_page s | Some v \<Rightarrow> v)\<rparr>"

definition spread_txt :: "TextAnnotation \<Rightarrow> TextPartial \<Rightarrow> TextAnnotation" where
  "spread_txt t u =
     \<lparr>txt_id = (case tp_id u of None \<Rightarrow> txt_id t | Some v \<Rightarrow> v),
      txt_x = (case tp_x u of None \<Rightarrow> txt_x t | Some v \<Rightarrow> v),
      txt_y = (case tp_y u of None \<Rightarrow> txt_y t | Some v \<Rightarrow> v),
      txt_text = (case tp_text u of None \<Rightarrow> txt_text t | Some v \<Rightarrow> v),
      txt_fontSize = (case tp_fontSize u of None \<Rightarrow> txt_fontSize t | Some v \<Rightarrow> v),
      txt_color = (case tp_color u of None \<Rightarrow> txt_color t | Some v \<Rightarrow> v),
      txt_page = (case tp_page u of None \<Rightarrow> txt_page t | Some v \<Rightarrow> v)\<rparr>"

text \<open>The spreads \<open>{ ...signature, id: generateId() }\<close> of the add handlers.\<close>

definition sig_with_id :: "SignatureInit \<Rightarrow> string \<Rightarrow> SignatureData" where
  "sig_with_id i n =
     \<lparr>sig_id = n, sig_x = si_x i, sig_y = si_y i, sig_width = si_width i,
      sig_height = si_height i, sig_dataUrl = si_dataUrl i, sig_page = si_page i\<rparr>"

definition txt_with_id :: "TextInit \<Rightarrow> string \<Rightarrow> TextAnnotation" where
  "txt_with_id i n =
     \<lparr>txt_id = n, txt_x = ti_x i, txt_y = ti_y i, txt_text = ti_text i,
      txt_fontSize = ti_fontSize i, txt_color = ti_color i, txt_page = ti_page i\<rparr>"

definition hl_with_id :: "HighlightInit \<Rightarrow> string \<Rightarrow> HighlightAnnotation" where
  "hl_with_id i n =
     \<lparr>hl_id = n, hl_x = hi_x i, hl_y = hi_y i, hl_width = hi_width i,
      hl_height = hi_height i, hl_page = hi_page i\<rparr>"

section \<open>Component state (PDFEditor and PDFViewer)\<close>

record pdf_file =
  file_name :: string
  file_bytes :: "nat list"

record dom_rect =
  rect_left :: real
  rect_top :: real

record mouse_event =
  clientX :: real
  clientY :: real

record box =
  box_x :: real
  box_y :: real
  box_width :: real
  box_height :: real

datatype ResizeHandle = Handle_nw | Handle_ne | Handle_sw | Handle_se

record resize_state =
  rz_id :: string
  rz_handle :: ResizeHandle
  startX :: real
  startY :: real
  startWidth :: real
  startHeight :: real
  startLeft :: real
  startTop :: real

text \<open>
  One record holds the \<open>useState\<close> cells of \<open>PDFEditor\<close> (the prop \<open>file\<close> as \<open>inputFile\<close>, then from \<open>numPages\<close> to
  \<open>annotations\<close>), the effects it leaves behind (\<open>toasts\<close>, the titles passed to
  \<open>toast\<close>), the tokens \<open>Math.random\<close> is going to yield to \<open>generateId\<close> (\<open>idSeq\<close>,
  read at \<open>idCount\<close>), and the cells and the ref of \<open>PDFViewer\<close> (from \<open>container\<close>,
  the bounding rectangle of \<open>containerRef.current\<close> or \<open>None\<close> for a null ref, to
  \<open>resizing\<close>).
\<close>

record state =
  inputFile :: pdf_file
  numPages :: int
  currentPage :: int
  scale :: real
  activeTool :: Tool
  showSignatureModal :: bool
  signatureToPlace :: "string option"
  isProcessing :: bool
  annotations :: Annotation
  toasts :: "string list"
  idSeq :: "nat \<Rightarrow> string"
  idCount :: nat
  container :: "dom_rect option"
  editingTextId :: "string option"
  highlightStart :: "(real \<times> real) option"
  tempHighlight :: "box option"
  draggingId :: "string option"
  dragOffset :: "real \<times> real"
  resizing :: "resize_state option"

text \<open>
  JavaScript truthiness of a \<open>string | null\<close>: \<open>null\<close> and the empty string are falsy.
  The handlers test \<open>draggingId\<close> and \<open>signatureToPlace\<close> this way.
\<close>

definition truthy :: "string option \<Rightarrow> bool" where
  "truthy v = (case v of None \<Rightarrow> False | Some s \<Rightarrow> s \<noteq> [])"

section \<open>Annotation store (PDFEditor)\<close>

definition generateId :: "state \<Rightarrow> string" where
  "generateId st = idSeq st (idCount st)"

definition handleAddSignature :: "SignatureInit \<Rightarrow> state \<Rightarrow> state" where
  "handleAddSignature signature st =
     st\<lparr>annotations := (annotations st)\<lparr>signatures :=
            signatures (annotations st) @ [sig_with_id signature (generateId st)]\<rparr>,
        idCount := Suc (idCount st)\<rparr>"

definition handleAddText :: "TextInit \<Rightarrow> state \<Rightarrow> state" where
  "handleAddText text st =
     st\<lparr>annotations := (annotations st)\<lparr>texts :=
            texts (annotations st) @ [txt_with_id text (generateId st)]\<rparr>,
        idCount := Suc (idCount st)\<rparr>"

definition handleAddHighlight :: "HighlightInit \<Rightarrow> state \<Rightarrow> state" where
  "handleAddHighlight highlight st =
     st\<lparr>annotations := (annotations st)\<lparr>highlights :=
            highlights (annotations st) @ [hl_with_id highlight (generateId st)]\<rparr>,
        idCount := Suc (idCount st)\<rparr>"

definition handleUpdateSignature :: "string \<Rightarrow> SignaturePartial \<Rightarrow> state \<Rightarrow> state" where
  "handleUpdateSignature i updates st =
     st\<lparr>annotations := (annotations st)\<lparr>signatures :=
            map (\<lambda>s. if sig_id s = i then spread_sig s updates else s)
              (signatures (annotations st))\<rparr>\<rparr>"

definition handleUpdateText :: "string \<Rightarrow> TextPartial \<Rightarrow> state \<Rightarrow> state" where
  "handleUpdateText i updates st =
     st\<lparr>annotations := (annotations st)\<lparr>texts :=
            map (\<lambda>t. if txt_id t = i then spread_txt t updates else t)
              (texts (annotations st))\<rparr>\<rparr>"

definition handleDeleteSignature :: "string \<Rightarrow> state \<Rightarrow> state" where
  "handleDeleteSignature i st =
     st\<lparr>annotations := (annotations st)\<lparr>signatures :=
            filter (\<lambda>s. sig_id s \<noteq> i) (signatures (annotations st))\<rparr>\<rparr>"

definition handleDeleteText :: "string \<Rightarrow> state \<Rightarrow> state" where
  "handleDeleteText i st =
     st\<lparr>annotations := (annotations st)\<lparr>texts :=
            filter (\<lambda>t. txt_id t \<noteq> i) (texts (annotations st))\<rparr>\<rparr>"

definition handleDeleteHighlight :: "string \<Rightarrow> state \<Rightarrow> state" where
  "handleDeleteHighlight i st =
     st\<lparr>annotations := (annotations st)\<lparr>highlights :=
            filter (\<lambda>h. hl_id h \<noteq> i) (highlights (annotations st))\<rparr>\<rparr>"

text \<open>The identifiers present in the store, over its three collections.\<close>

definition store_ids :: "Annotation \<Rightarrow> string set" where
  "store_ids a =
     sig_id ` set (signatures a) \<union> txt_id ` set (texts a) \<union> hl_id ` set (highlights a)"

section \<open>Coordinate conversion and pointer handlers (PDFViewer)\<close>

text \<open>
  \<open>getRelativePosition\<close> reads the ref, the bounding rectangle of the container and the
  \<open>scale\<close> prop. The quotient is the one of \<^typ>\<open>real\<close>; it is JavaScript's wherever
  the scale is not zero, which is what the results about coordinates assume.
\<close>

definition getRelativePosition :: "dom_rect option \<Rightarrow> real \<Rightarrow> mouse_event \<Rightarrow> real \<times> real" where
  "getRelativePosition cont sc e =
     (case cont of
        None \<Rightarrow> (0, 0)
      | Some rect \<Rightarrow> ((clientX e - rect_left rect) / sc, (clientY e - rect_top rect) / sc))"

definition onSignaturePlaced :: "state \<Rightarrow> state" where
  "onSignaturePlaced st = st\<lparr>signatureToPlace := None\<rparr>"

definition handleClick :: "mouse_event \<Rightarrow> state \<Rightarrow> state" where
  "handleClick e st =
     (if truthy (draggingId st) \<or> resizing st \<noteq> None then st
      else
        (case getRelativePosition (container st) (scale st) e of (x, y) \<Rightarrow>
           if activeTool st = Tool_sign \<and> truthy (signatureToPlace st) then
             onSignaturePlaced (handleAddSignature
               \<lparr>si_x = x, si_y = y, si_width = 150, si_height = 60,
                si_dataUrl = the (signatureToPlace st), si_page = currentPage st\<rparr> st)
           else if activeTool st = Tool_text then
             handleAddText
               \<lparr>ti_x = x, ti_y = y, ti_text = [], ti_fontSize = 16,
                ti_color = ''#1a1a2e'', ti_page = currentPage st\<rparr> st
           else st))"

definition handleMouseDown :: "mouse_event \<Rightarrow> state \<Rightarrow> state" where
  "handleMouseDown e st =
     (if activeTool st = Tool_highlight then
        (case getRelativePosition (container st) (scale st) e of (x, y) \<Rightarrow>
           st\<lparr>highlightStart := Some (x, y),
              tempHighlight := Some \<lparr>box_x = x, box_y = y, box_width = 0, box_height = 0\<rparr>\<rparr>)
      else st)"

text \<open>The first \<open>if\<close> of \<open>handleMouseMove\<close>: the rubber band follows the pointer.\<close>

definition moveHighlight :: "mouse_event \<Rightarrow> state \<Rightarrow> state" where
  "moveHighlight e st =
     (case highlightStart st of
        Some (hx, hy) \<Rightarrow>
          if activeTool st = Tool_highlight then
            (case getRelativePosition (container st) (scale st) e of (x, y) \<Rightarrow>
               st\<lparr>tempHighlight := Some
                    \<lparr>box_x = min hx x, box_y = min hy y,
                     box_width = \<bar>x - hx\<bar>, box_height = \<bar>y - hy\<bar>\<rparr>\<rparr>)
          else st
      | None \<Rightarrow> st)"

text \<open>
  The resize is where a statement about the result depends on how sums and differences
  round, so there the arithmetic is the one of IEEE 754 binary64 that JavaScript uses:
  the exact result, rounded to the nearest double, ties to even. \<open>to_double\<close> is that
  rounding: a double is an integer multiple of \<open>2 powi quantum_exp x\<close>, a power of two
  that leaves 53 bits to a number of the size of \<open>x\<close> (and is never below \<open>2 powi - 1074\<close>).
  \<open>floor_log2 x\<close> is the exponent of \<open>x\<close>: the \<open>e\<close> with \<open>2 powi e \<le> x < 2 powi (e + 1)\<close>,
  found by doubling or halving \<open>x\<close> until it lies between 1 and 2.
  Results of magnitude \<open>2 ^ 1024\<close> or more, which JavaScript turns into \<open>Infinity\<close>, are
  outside the model. \<open>Math.max\<close> does not round. \<open>half_ulp z\<close> is half the spacing of
  the doubles around \<open>z\<close>, the most that rounding \<open>z\<close> moves it.
\<close>

definition round_ties_even :: "real \<Rightarrow> int" where
  "round_ties_even t =
     (let f = \<lfloor>t\<rfloor> in
      if t - of_int f < 1 / 2 then f
      else if 1 / 2 < t - of_int f then f + 1
      else if even f then f else f + 1)"

function floor_log2 :: "real \<Rightarrow> int" where
  "floor_log2 x =
     (if x \<le> 0 then 0
      else if x < 1 then floor_log2 (2 * x) - 1
      else if 2 \<le> x then floor_log2 (x / 2) + 1
      else 0)"
  by pat_completeness auto

termination
proof (relation "measure (\<lambda>x. nat \<bar>\<lfloor>log 2 x\<rfloor>\<bar>)")
  show "wf (measure (\<lambda>x. nat \<bar>\<lfloor>log 2 x\<rfloor>\<bar>))" by simp
next
  fix x :: real
  assume "\<not> x \<le> 0" and "x < 1"
  then have x: "0 < x" "x < 1" by simp_all
  have "log 2 (2 * x) = 1 + log 2 x" using x by (simp add: log_mult)
  then have f: "\<lfloor>log 2 (2 * x)\<rfloor> = \<lfloor>log 2 x\<rfloor> + 1" by simp
  have "log 2 x < 0" using x by simp
  then have "\<lfloor>log 2 x\<rfloor> < 0" by linarith
  with f show "(2 * x, x) \<in> measure (\<lambda>x. nat \<bar>\<lfloor>log 2 x\<rfloor>\<bar>)"
    unfolding in_measure by linarith
next
  fix x :: real
  assume "\<not> x \<le> 0" and "\<not> x < 1" and "2 \<le> x"
  then have x: "2 \<le> x" by simp
  have "log 2 (x / 2) = log 2 x - 1" using x by (simp add: log_divide)
  then have f: "\<lfloor>log 2 (x / 2)\<rfloor> = \<lfloor>log 2 x\<rfloor> - 1" by simp
  have "log 2 2 \<le> log 2 x" using x by (simp del: log_eq_one)
  then have "1 \<le> log 2 x" by simp
  then have "1 \<le> \<lfloor>log 2 x\<rfloor>" by linarith
  with f show "(x / 2, x) \<in> measure (\<lambda>x. nat \<bar>\<lfloor>log 2 x\<rfloor>\<bar>)"
    unfolding in_measure by linarith
qed

declare floor_log2.simps [simp del]

definition quantum_exp :: "real \<Rightarrow> int" where
  "quantum_exp x = max (floor_log2 \<bar>x\<bar> - 52) (- 1074)"

definition to_double :: "real \<Rightarrow> real" where
  "to_double x =
     (if x = 0 then 0
      else of_int (round_ties_even (x / 2 powi quantum_exp x)) * 2 powi quantum_exp x)"

definition js_add :: "real \<Rightarrow> real \<Rightarrow> real" where
  "js_add x y = to_double (x + y)"

definition js_sub :: "real \<Rightarrow> real \<Rightarrow> real" where
  "js_sub x y = to_double (x - y)"

definition half_ulp :: "real \<Rightarrow> real" where
  "half_ulp z = 2 powi (quantum_exp z - 1)"

text \<open>The \<open>switch\<close> on the handle: the new left, top, width and height.\<close>

definition resizeGeometry :: "resize_state \<Rightarrow> real \<times> real \<Rightarrow> real \<times> real \<times> real \<times> real" where
  "resizeGeometry rz p =
     (let deltaX = js_sub (fst p) (startX rz); deltaY = js_sub (snd p) (startY rz) in
      case rz_handle rz of
        Handle_se \<Rightarrow>
          (let newWidth = max 50 (js_add (startWidth rz) deltaX);
               newHeight = max 30 (js_add (startHeight rz) deltaY)
           in (startLeft rz, startTop rz, newWidth, newHeight))
      | Handle_sw \<Rightarrow>
          (let newWidth = max 50 (js_sub (startWidth rz) deltaX);
               newHeight = max 30 (js_add (startHeight rz) deltaY)
           in (js_add (startLeft rz) (js_sub (startWidth rz) newWidth), startTop rz,
               newWidth, newHeight))
      | Handle_ne \<Rightarrow>
          (let newWidth = max 50 (js_add (startWidth rz) deltaX);
               newHeight = max 30 (js_sub (startHeight rz) deltaY)
           in (startLeft rz, js_add (startTop rz) (js_sub (startHeight rz) newHeight),
               newWidth, newHeight))
      | Handle_nw \<Rightarrow>
          (let newWidth = max 50 (js_sub (startWidth rz) deltaX);
               newHeight = max 30 (js_sub (startHeight rz) deltaY)
           in (js_add (startLeft rz) (js_sub (startWidth rz) newWidth),
               js_add (startTop rz) (js_sub (startHeight rz) newHeight),
               newWidth, newHeight)))"

definition handleMouseMove :: "mouse_event \<Rightarrow> state \<Rightarrow> state" where
  "handleMouseMove e st =
     (let st1 = moveHighlight e st in
      case resizing st of
        Some rz \<Rightarrow>
          (case find (\<lambda>s. sig_id s = rz_id rz) (signatures (annotations st)) of
             None \<Rightarrow> st1
           | Some signature \<Rightarrow>
               (case resizeGeometry rz (getRelativePosition (container st) (scale st) e) of
                  (newX, newY, newWidth, newHeight) \<Rightarrow>
                    handleUpdateSignature (rz_id rz)
                      (no_sig_updates\<lparr>sp_x := Some newX, sp_y := Some newY,
                         sp_width := Some newWidth, sp_height := Some newHeight\<rparr>) st1))
      | None \<Rightarrow>
          if truthy (draggingId st) then
            (case getRelativePosition (container st) (scale st) e of (x, y) \<Rightarrow>
               (case find (\<lambda>s. sig_id s = the (draggingId st)) (signatures (annotations st)) of
                  Some signature \<Rightarrow>
                    handleUpdateSignature (the (draggingId st))
                      (no_sig_updates\<lparr>sp_x := Some (x - fst (dragOffset st)),
                         sp_y := Some (y - snd (dragOffset st))\<rparr>) st1
                | None \<Rightarrow>
                    (case find (\<lambda>t. txt_id t = the (draggingId st)) (texts (annotations st)) of
                       Some text \<Rightarrow>
                         handleUpdateText (the (draggingId st))
                           (no_txt_updates\<lparr>tp_x := Some (x - fst (dragOffset st)),
                              tp_y := Some (y - snd (dragOffset st))\<rparr>) st1
                     | None \<Rightarrow> st1)))
          else st1)"

definition handleMouseUp :: "state \<Rightarrow> state" where
  "handleMouseUp st =
     (let st1 =
        (case tempHighlight st of
           Some t \<Rightarrow>
             if box_width t > 10 \<and> box_height t > 5 then
               handleAddHighlight
                 \<lparr>hi_x = box_x t, hi_y = box_y t, hi_width = box_width t,
                  hi_height = box_height t, hi_page = currentPage st\<rparr> st
             else st
         | None \<Rightarrow> st)
      in st1\<lparr>highlightStart := None, tempHighlight := None,
             draggingId := None, resizing := None\<rparr>)"

definition startDrag :: "mouse_event \<Rightarrow> string \<Rightarrow> real \<Rightarrow> real \<Rightarrow> state \<Rightarrow> state" where
  "startDrag e i itemX itemY st =
     (if activeTool st = Tool_highlight then st
      else
        (case getRelativePosition (container st) (scale st) e of (x, y) \<Rightarrow>
           st\<lparr>draggingId := Some i, dragOffset := (x - itemX, y - itemY)\<rparr>))"

definition startResize :: "mouse_event \<Rightarrow> string \<Rightarrow> ResizeHandle \<Rightarrow> SignatureData \<Rightarrow> state \<Rightarrow> state" where
  "startResize e i handle signature st =
     (case getRelativePosition (container st) (scale st) e of (x, y) \<Rightarrow>
        st\<lparr>resizing := Some
             \<lparr>rz_id = i, rz_handle = handle, startX = x, startY = y,
              startWidth = sig_width signature, startHeight = sig_height signature,
              startLeft = sig_x signature, startTop = sig_y signature\<rparr>\<rparr>)"

subsection \<open>Pointer events as the rendered tree delivers them\<close>

text \<open>
  A press lands on the page background, on the body of a signature, on a text annotation
  or on a corner handle of a signature. The container listens with \<open>handleMouseDown\<close>;
  a signature and a text listen with \<open>startDrag\<close>, a handle with \<open>startResize\<close>, and both
  stop the propagation, so that one press runs one handler. Under the highlight tool a
  signature is rendered with \<open>pointer-events-none\<close> and without its handles, and the
  press goes to the container. A release and a leave both run \<open>handleMouseUp\<close>.
\<close>

datatype press_target =
    OnPage
  | OnSignature SignatureData
  | OnText TextAnnotation
  | OnHandle SignatureData ResizeHandle

datatype pointer_event =
    PointerDown press_target mouse_event
  | PointerMove mouse_event
  | PointerUp
  | PointerLeave

fun pointerDown :: "press_target \<Rightarrow> mouse_event \<Rightarrow> state \<Rightarrow> state" where
  "pointerDown OnPage e st = handleMouseDown e st"
| "pointerDown (OnSignature s) e st =
     (if activeTool st = Tool_highlight then handleMouseDown e st
      else startDrag e (sig_id s) (sig_x s) (sig_y s) st)"
| "pointerDown (OnText t) e st = startDrag e (txt_id t) (txt_x t) (txt_y t) st"
| "pointerDown (OnHandle s h) e st =
     (if activeTool st = Tool_highlight then handleMouseDown e st
      else startResize e (sig_id s) h s st)"

fun pointer_step :: "state \<Rightarrow> pointer_event \<Rightarrow> state" where
  "pointer_step st (PointerDown tg e) = pointerDown tg e st"
| "pointer_step st (PointerMove e) = handleMouseMove e st"
| "pointer_step st PointerUp = handleMouseUp st"
| "pointer_step st PointerLeave = handleMouseUp st"

definition run_events :: "state \<Rightarrow> pointer_event list \<Rightarrow> state" where
  "run_events st es = foldl pointer_step st es"

text \<open>The three gesture descriptors, as the handlers test them.\<close>

definition drag_active :: "state \<Rightarrow> bool" where
  "drag_active st = truthy (draggingId st)"

definition resize_active :: "state \<Rightarrow> bool" where
  "resize_active st = (resizing st \<noteq> None)"

definition band_active :: "state \<Rightarrow> bool" where
  "band_active st = (highlightStart st \<noteq> None \<or> tempHighlight st \<noteq> None)"

definition gesture_idle :: "state \<Rightarrow> bool" where
  "gesture_idle st = (\<not> drag_active st \<and> \<not> resize_active st \<and> \<not> band_active st)"

definition at_most_one_gesture :: "state \<Rightarrow> bool" where
  "at_most_one_gesture st =
     (\<not> (drag_active st \<and> resize_active st)
      \<and> \<not> (drag_active st \<and> band_active st)
      \<and> \<not> (resize_active st \<and> band_active st))"

text \<open>
  Event sequences in which a press is never followed by another press before a release
  or a leave; the flag says whether a press is outstanding.
\<close>

fun one_press_at_a_time :: "bool \<Rightarrow> pointer_event list \<Rightarrow> bool" where
  "one_press_at_a_time p [] = True"
| "one_press_at_a_time p (PointerDown tg e # es) = (\<not> p \<and> one_press_at_a_time True es)"
| "one_press_at_a_time p (PointerMove e # es) = one_press_at_a_time p es"
| "one_press_at_a_time p (PointerUp # es) = one_press_at_a_time False es"
| "one_press_at_a_time p (PointerLeave # es) = one_press_at_a_time False es"

section \<open>Export (handleDownload of PDFEditor)\<close>

text \<open>
  The document library is outside the repository; its calls are parameters. \<open>lib_load\<close>
  is \<open>PDFDocument.load\<close> followed by \<open>getPages\<close>, \<open>lib_fetch\<close> is the \<open>fetch\<close> of a data
  URL with \<open>arrayBuffer\<close>, \<open>lib_embedPng\<close> is \<open>embedPng\<close>, \<open>lib_save\<close> is \<open>save\<close>;
  \<open>None\<close> is a rejected promise. \<open>lib_drawText\<close> says whether \<open>drawText\<close> accepts a text:
  it throws on a character that the default font cannot encode. A page holds its size
  and the drawing calls made on it, in order.
\<close>

datatype draw_op =
    DrawImage "nat list" real real real real
  | DrawText js_string real real real "real \<times> real \<times> real"
  | DrawRectangle real real real real "real \<times> real \<times> real" real

record pdf_page =
  page_width :: real
  page_height :: real
  page_content :: "draw_op list"

record pdf_lib =
  lib_load :: "nat list \<Rightarrow> pdf_page list option"
  lib_fetch :: "string \<Rightarrow> nat list option"
  lib_embedPng :: "nat list \<Rightarrow> nat list option"
  lib_drawText :: "js_string \<Rightarrow> bool"
  lib_save :: "pdf_page list \<Rightarrow> nat list option"

datatype export_error = LoadFailed | ImageDecodeFailed | TextEncodeFailed | SaveFailed

text \<open>\<open>pages[n]\<close> for a number \<open>n\<close>: \<open>undefined\<close> outside the array.\<close>

definition page_at :: "pdf_page list \<Rightarrow> int \<Rightarrow> pdf_page option" where
  "page_at pages n = (if 0 \<le> n \<and> n < int (length pages) then Some (pages ! nat n) else None)"

text \<open>A drawing call on the page object \<open>pages[n]\<close>.\<close>

definition draw_on :: "pdf_page list \<Rightarrow> int \<Rightarrow> draw_op \<Rightarrow> pdf_page list" where
  "draw_on pages n op =
     pages[nat n := (pages ! nat n)\<lparr>page_content := page_content (pages ! nat n) @ [op]\<rparr>]"

text \<open>
  \<open>String.prototype.trim\<close> strips white space and line terminators from both ends: the
  code units TAB, LF, VT, FF, CR, SPACE, NO-BREAK SPACE, U+1680, U+2000 to U+200A,
  U+2028, U+2029, U+202F, U+205F, U+3000 and U+FEFF.
\<close>

definition isWhiteSpace :: "16 word \<Rightarrow> bool" where
  "isWhiteSpace c =
     (c \<in> {9, 10, 11, 12, 13, 32, 160, 5760, 8232, 8233, 8239, 8287, 12288, 65279}
      \<or> (8192 \<le> c \<and> c \<le> 8202))"

definition trim :: "js_string \<Rightarrow> js_string" where
  "trim s = rev (dropWhile isWhiteSpace (rev (dropWhile isWhiteSpace s)))"

fun addSignatures :: "pdf_lib \<Rightarrow> SignatureData list \<Rightarrow> pdf_page list \<Rightarrow> export_error + pdf_page list" where
  "addSignatures L [] pages = Inr pages"
| "addSignatures L (signature # rest) pages =
     (case page_at pages (sig_page signature - 1) of
        None \<Rightarrow> addSignatures L rest pages
      | Some page \<Rightarrow>
          (case lib_fetch L (sig_dataUrl signature) of
             None \<Rightarrow> Inl ImageDecodeFailed
           | Some imageBytes \<Rightarrow>
               (case lib_embedPng L imageBytes of
                  None \<Rightarrow> Inl ImageDecodeFailed
                | Some pngImage \<Rightarrow>
                    addSignatures L rest
                      (draw_on pages (sig_page signature - 1)
                         (DrawImage pngImage (sig_x signature)
                            (page_height page - sig_y signature - sig_height signature)
                            (sig_width signature) (sig_height signature))))))"

fun addTexts :: "pdf_lib \<Rightarrow> TextAnnotation list \<Rightarrow> pdf_page list \<Rightarrow> export_error + pdf_page list" where
  "addTexts L [] pages = Inr pages"
| "addTexts L (text # rest) pages =
     (if trim (txt_text text) = [] then addTexts L rest pages
      else
        (case page_at pages (txt_page text - 1) of
           None \<Rightarrow> addTexts L rest pages
         | Some page \<Rightarrow>
             if \<not> lib_drawText L (txt_text text) then Inl TextEncodeFailed
             else
               addTexts L rest
                 (draw_on pages (txt_page text - 1)
                    (DrawText (txt_text text) (txt_x text)
                       (page_height page - txt_y text - txt_fontSize text)
                       (txt_fontSize text) (0.1, 0.1, 0.18)))))"

fun addHighlights :: "HighlightAnnotation list \<Rightarrow> pdf_page list \<Rightarrow> pdf_page list" where
  "addHighlights [] pages = pages"
| "addHighlights (highlight # rest) pages =
     (case page_at pages (hl_page highlight - 1) of
        None \<Rightarrow> addHighlights rest pages
      | Some page \<Rightarrow>
          addHighlights rest
            (draw_on pages (hl_page highlight - 1)
               (DrawRectangle (hl_x highlight)
                  (page_height page - hl_y highlight - hl_height highlight)
                  (hl_width highlight) (hl_height highlight) (0.98, 0.8, 0.08) 0.4)))"

text \<open>The \<open>try\<close> block up to the three loops: the pages of the loaded document, drawn on.\<close>

definition bakePages :: "pdf_lib \<Rightarrow> pdf_file \<Rightarrow> Annotation \<Rightarrow> export_error + pdf_page list" where
  "bakePages L f a =
     (case lib_load L (file_bytes f) of
        None \<Rightarrow> Inl LoadFailed
      | Some pages \<Rightarrow>
          (case addSignatures L (signatures a) pages of
             Inl err \<Rightarrow> Inl err
           | Inr pages1 \<Rightarrow>
               (case addTexts L (texts a) pages1 of
                  Inl err \<Rightarrow> Inl err
                | Inr pages2 \<Rightarrow> Inr (addHighlights (highlights a) pages2))))"

record download =
  dl_name :: string
  dl_bytes :: "nat list"

text \<open>The whole \<open>try\<close> block: the file offered to the user, or the error that is caught.\<close>

definition bake :: "pdf_lib \<Rightarrow> pdf_file \<Rightarrow> Annotation \<Rightarrow> export_error + download" where
  "bake L f a =
     (case bakePages L f a of
        Inl err \<Rightarrow> Inl err
      | Inr pages \<Rightarrow>
          (case lib_save L pages of
             None \<Rightarrow> Inl SaveFailed
           | Some pdfBytes \<Rightarrow> Inr \<lparr>dl_name = ''edited_'' @ file_name f, dl_bytes = pdfBytes\<rparr>))"

text \<open>
  \<open>handleDownload\<close> is asynchronous: \<open>downloadStart\<close> is what runs before the first
  \<open>await\<close>, \<open>downloadFinish\<close> the rest, with the \<open>catch\<close> and the \<open>finally\<close>. The file and
  the annotations are the ones the callback closed over.
\<close>

definition downloadStart :: "state \<Rightarrow> state" where
  "downloadStart st = st\<lparr>isProcessing := True\<rparr>"

definition downloadFinish :: "pdf_lib \<Rightarrow> pdf_file \<Rightarrow> Annotation \<Rightarrow> state \<Rightarrow> state \<times> download option" where
  "downloadFinish L f a st =
     (case bake L f a of
        Inr d \<Rightarrow> (st\<lparr>toasts := toasts st @ [''PDF downloaded''], isProcessing := False\<rparr>, Some d)
      | Inl err \<Rightarrow> (st\<lparr>toasts := toasts st @ [''Error''], isProcessing := False\<rparr>, None))"

definition handleDownload :: "pdf_lib \<Rightarrow> state \<Rightarrow> state \<times> download option" where
  "handleDownload L st = downloadFinish L (inputFile st) (annotations st) (downloadStart st)"

text \<open>
  For the statements about the export: the image that \<open>fetch\<close> and \<open>embedPng\<close> yield for
  a data URL; whether a 1-based page number has a page in a document of \<open>n\<close> pages; and
  the annotations that are neither on a page the document lacks nor, for a text, blank
  after trimming.
\<close>

definition decodeImage :: "pdf_lib \<Rightarrow> string \<Rightarrow> nat list option" where
  "decodeImage L url =
     (case lib_fetch L url of None \<Rightarrow> None | Some imageBytes \<Rightarrow> lib_embedPng L imageBytes)"

definition has_page :: "nat \<Rightarrow> int \<Rightarrow> bool" where
  "has_page n p = (1 \<le> p \<and> p \<le> int n)"

definition bakeable :: "nat \<Rightarrow> Annotation \<Rightarrow> Annotation" where
  "bakeable n a =
     \<lparr>signatures = filter (\<lambda>s. has_page n (sig_page s)) (signatures a),
      texts = filter (\<lambda>t. trim (txt_text t) \<noteq> [] \<and> has_page n (txt_page t)) (texts a),
      highlights = filter (\<lambda>h. has_page n (hl_page h)) (highlights a)\<rparr>"

section \<open>Signature crop (handleSave of SignatureCanvas)\<close>

text \<open>
  \<open>getImageData\<close> yields the width, the height and the RGBA bytes of the canvas, four per
  pixel, row by row. A read past the end of \<open>data\<close> is \<open>undefined\<close>, which is not greater
  than 0.
\<close>

record image_data =
  img_width :: nat
  img_height :: nat
  img_data :: "nat list"

definition alpha_positive :: "image_data \<Rightarrow> nat \<Rightarrow> nat \<Rightarrow> bool" where
  "alpha_positive im x y =
     (let k = (y * img_width im + x) * 4 + 3
      in k < length (img_data im) \<and> img_data im ! k > 0)"

text \<open>The body of the inner loop, the inner loop and the outer loop.\<close>

definition scanPixel :: "image_data \<Rightarrow> nat \<Rightarrow> nat \<Rightarrow> nat \<times> nat \<times> nat \<times> nat \<Rightarrow> nat \<times> nat \<times> nat \<times> nat" where
  "scanPixel im y x acc =
     (case acc of (minX, minY, maxX, maxY) \<Rightarrow>
        if alpha_positive im x y then (min minX x, min minY y, max maxX x, max maxY y)
        else acc)"

definition scanRow :: "image_data \<Rightarrow> nat \<Rightarrow> nat \<times> nat \<times> nat \<times> nat \<Rightarrow> nat \<times> nat \<times> nat \<times> nat" where
  "scanRow im y acc = fold (scanPixel im y) [0..<img_width im] acc"

definition scanImage :: "image_data \<Rightarrow> nat \<times> nat \<times> nat \<times> nat" where
  "scanImage im = fold (scanRow im) [0..<img_height im] (img_width im, img_height im, 0, 0)"

text \<open>
  The component: the image data of the canvas (\<open>None\<close> for a null ref), whether the
  container ref is set, whether the 2D context of the canvas and the one of the fresh
  canvas are available, and the \<open>hasContent\<close> flag.
  The result of \<open>handleSave\<close> is the \<open>drawImage\<close> call made on the fresh canvas, whose PNG
  encoding goes to \<open>onSave\<close>: the width and the height assigned to that canvas, the
  source rectangle and the destination rectangle. \<open>None\<close> is a return without a call of
  \<open>onSave\<close>.
\<close>

record signature_pad =
  pad_canvas :: "image_data option"
  pad_container :: bool
  pad_ctx :: bool
  pad_croppedCtx :: bool
  pad_hasContent :: bool

record crop =
  out_width :: int
  out_height :: int
  src_x :: int
  src_y :: int
  src_width :: int
  src_height :: int
  dst_x :: int
  dst_y :: int
  dst_width :: int
  dst_height :: int

definition handleSave :: "signature_pad \<Rightarrow> crop option" where
  "handleSave pad =
     (case pad_canvas pad of
        None \<Rightarrow> None
      | Some im \<Rightarrow>
          if \<not> pad_hasContent pad then None
          else if \<not> pad_ctx pad then None
          else
            (case scanImage im of (minX0, minY0, maxX0, maxY0) \<Rightarrow>
               (let padding = 20;
                    minX = max 0 (int minX0 - padding);
                    minY = max 0 (int minY0 - padding);
                    maxX = min (int (img_width im)) (int maxX0 + padding);
                    maxY = min (int (img_height im)) (int maxY0 + padding);
                    croppedWidth = maxX - minX;
                    croppedHeight = maxY - minY
                in if \<not> pad_croppedCtx pad then None
                   else Some \<lparr>out_width = croppedWidth, out_height = croppedHeight,
                          src_x = minX, src_y = minY,
                          src_width = croppedWidth, src_height = croppedHeight,
                          dst_x = 0, dst_y = 0,
                          dst_width = croppedWidth, dst_height = croppedHeight\<rparr>)))"

text \<open>
  The other writers of the canvas and of the flag. \<open>setupCanvas\<close> runs on mount, on every
  resize of the window and after every change of the colour; assigning \<open>canvas.width\<close>
  and \<open>canvas.height\<close> (here \<open>w\<close> and \<open>h\<close>, the container size times the device pixel
  ratio) resets the bitmap to transparent, and the flag is not touched. \<open>clearCanvas\<close>
  clears the whole bitmap through the scaled context and resets the flag, and so does
  \<open>handleTabChange\<close>.
\<close>

definition blank_raster :: "nat \<Rightarrow> nat \<Rightarrow> image_data" where
  "blank_raster w h = \<lparr>img_width = w, img_height = h, img_data = replicate (w * h * 4) 0\<rparr>"

definition setupCanvas :: "nat \<Rightarrow> nat \<Rightarrow> signature_pad \<Rightarrow> signature_pad" where
  "setupCanvas w h pad =
     (case pad_canvas pad of
        None \<Rightarrow> pad
      | Some im \<Rightarrow>
          if \<not> pad_container pad then pad
          else if \<not> pad_ctx pad then pad
          else pad\<lparr>pad_canvas := Some (blank_raster w h)\<rparr>)"

definition clearCanvas :: "signature_pad \<Rightarrow> signature_pad" where
  "clearCanvas pad =
     (case pad_canvas pad of
        None \<Rightarrow> pad
      | Some im \<Rightarrow>
          if \<not> pad_ctx pad then pad
          else if \<not> pad_container pad then pad
          else pad\<lparr>pad_canvas := Some (blank_raster (img_width im) (img_height im)),
                   pad_hasContent := False\<rparr>)"

definition handleTabChange :: "signature_pad \<Rightarrow> signature_pad" where
  "handleTabChange pad = (clearCanvas pad)\<lparr>pad_hasContent := False\<rparr>"

text \<open>
  The bounding box in the words of the specification: the least and the greatest column
  and row that hold a pixel whose alpha is not zero.
\<close>

definition visible_pixels :: "image_data \<Rightarrow> (nat \<times> nat) set" where
  "visible_pixels im = {(x, y). x < img_width im \<and> y < img_height im \<and> alpha_positive im x y}"

definition bounding_box :: "image_data \<Rightarrow> nat \<times> nat \<times> nat \<times> nat" where
  "bounding_box im =
     (Min (fst ` visible_pixels im), Min (snd ` visible_pixels im),
      Max (fst ` visible_pixels im), Max (snd ` visible_pixels im))"

text \<open>The pixel positions in the order in which the two loops visit them.\<close>

definition pixel_positions :: "image_data \<Rightarrow> (nat \<times> nat) list" where
  "pixel_positions im =
     concat (map (\<lambda>y. map (\<lambda>x. (x, y)) [0..<img_width im]) [0..<img_height im])"

section \<open>Sample inputs\<close>

definition sample_signature :: SignatureData where
  "sample_signature =
     \<lparr>sig_id = ''k3x9q2a'', sig_x = 100, sig_y = 100, sig_width = 150, sig_height = 60,
      sig_dataUrl = ''data:image/png;base64,iVBORw0KGgo='', sig_page = 1\<rparr>"

definition sample_text :: TextAnnotation where
  "sample_text =
     \<lparr>txt_id = ''p0w4mzd'', txt_x = 72, txt_y = 300, txt_text = [65, 112, 112, 114, 111, 118, 101, 100],
      txt_fontSize = 16, txt_color = ''#1a1a2e'', txt_page = 1\<rparr>"

definition sample_highlight :: HighlightAnnotation where
  "sample_highlight =
     \<lparr>hl_id = ''h7c1vbn'', hl_x = 50, hl_y = 400, hl_width = 200, hl_height = 18,
      hl_page = 2\<rparr>"

definition sample_state :: state where
  "sample_state =
     \<lparr>inputFile = \<lparr>file_name = ''form.pdf'', file_bytes = [37, 80, 68, 70]\<rparr>,
      numPages = 2, currentPage = 1, scale = 2, activeTool = Tool_select,
      showSignatureModal = False, signatureToPlace = None, isProcessing = False,
      annotations = \<lparr>signatures = [sample_signature], texts = [sample_text],
                      highlights = [sample_highlight]\<rparr>,
      toasts = [], idSeq = (\<lambda>n. replicate (Suc n) CHR ''a''), idCount = 0,
      container = Some \<lparr>rect_left = 40, rect_top = 20\<rparr>,
      editingTextId = None, highlightStart = None, tempHighlight = None,
      draggingId = None, dragOffset = (0, 0), resizing = None\<rparr>"

definition sample_sign_state :: state where
  "sample_sign_state = sample_state\<lparr>activeTool := Tool_sign,
     signatureToPlace := Some ''data:image/png;base64,AAAA''\<rparr>"

definition sample_click :: mouse_event where
  "sample_click = \<lparr>clientX = 580, clientY = 360\<rparr>"

definition sample_resize_se :: state where
  "sample_resize_se = sample_state\<lparr>resizing := Some
     \<lparr>rz_id = ''k3x9q2a'', rz_handle = Handle_se, startX = 250, startY = 160,
      startWidth = 150, startHeight = 60, startLeft = 100, startTop = 100\<rparr>\<rparr>"




definition sample_resized :: SignatureData where
  "sample_resized = sample_signature\<lparr>sig_width := 50, sig_height := 30\<rparr>"

definition sample_two_presses :: "pointer_event list" where
  "sample_two_presses =
     [PointerDown (OnHandle sample_signature Handle_se) \<lparr>clientX = 540, clientY = 340\<rparr>,
      PointerMove \<lparr>clientX = 300, clientY = 260\<rparr>,
      PointerDown (OnSignature sample_resized) \<lparr>clientX = 300, clientY = 260\<rparr>]"

definition sample_gesture :: "pointer_event list" where
  "sample_gesture =
     [PointerDown (OnHandle sample_signature Handle_se) \<lparr>clientX = 540, clientY = 340\<rparr>,
      PointerMove \<lparr>clientX = 300, clientY = 260\<rparr>,
      PointerUp,
      PointerDown (OnSignature sample_resized) \<lparr>clientX = 300, clientY = 260\<rparr>,
      PointerMove \<lparr>clientX = 320, clientY = 280\<rparr>]"

definition sample_pages :: "pdf_page list" where
  "sample_pages =
     [\<lparr>page_width = 612, page_height = 792, page_content = []\<rparr>,
      \<lparr>page_width = 612, page_height = 792, page_content = []\<rparr>]"

definition sample_lib :: pdf_lib where
  "sample_lib =
     \<lparr>lib_load = (\<lambda>bytes. if bytes = [37, 80, 68, 70] then Some sample_pages else None),
      lib_fetch = (\<lambda>url. if url = ''data:image/png;base64,iVBORw0KGgo=''
                          then Some [137, 80, 78, 71] else None),
      lib_embedPng = (\<lambda>bytes. Some bytes),
      lib_drawText = (\<lambda>text. list_all (\<lambda>c. 32 \<le> c \<and> c \<le> 126) text),
      lib_save = (\<lambda>pages. Some (map (\<lambda>p. length (page_content p)) pages))\<rparr>"

definition sample_stray_state :: state where
  "sample_stray_state = sample_state\<lparr>annotations :=
     \<lparr>signatures =
        [sample_signature\<lparr>sig_id := ''q8r2t5u'', sig_dataUrl := ''broken'', sig_page := 5\<rparr>,
         sample_signature],
      texts =
        [sample_text\<lparr>txt_id := ''w1e6y9i'', txt_text := [32, 160, 8195, 10]\<rparr>,
         sample_text,
         sample_text\<lparr>txt_id := ''o3p7a2s'', txt_text := [97, 127, 98], txt_page := 0\<rparr>],
      highlights =
        [sample_highlight\<lparr>hl_id := ''d4f8g1j'', hl_page := 3\<rparr>,
         sample_highlight]\<rparr>\<rparr>"

definition sample_unencodable_state :: state where
  "sample_unencodable_state = sample_state\<lparr>annotations :=
     \<lparr>signatures = [sample_signature],
      texts = [sample_text, sample_text\<lparr>txt_id := ''o3p7a2s'', txt_text := [97, 127, 98]\<rparr>],
      highlights = [sample_highlight]\<rparr>\<rparr>"

definition sample_raster :: image_data where
  "sample_raster =
     \<lparr>img_width = 60, img_height = 50,
      img_data = map (\<lambda>k. if k = 5383 \<or> k = 5883 then 255 else 0) [0..<12000]\<rparr>"

definition sample_pad :: signature_pad where
  "sample_pad =
     \<lparr>pad_canvas = Some sample_raster, pad_container = True, pad_ctx = True,
      pad_croppedCtx = True, pad_hasContent = True\<rparr>"

definition sample_drift_signature :: SignatureData where
  "sample_drift_signature =
     sample_signature\<lparr>sig_x := 7693649363424597 / 140737488355328, sig_width := 202\<rparr>"

definition sample_drift_state :: state where
  "sample_drift_state = sample_state\<lparr>scale := 1,
     annotations := \<lparr>signatures = [sample_drift_signature], texts = [], highlights = []\<rparr>\<rparr>"

lemmas sample_defs = sample_state_def sample_signature_def sample_text_def sample_highlight_def

lemmas handler_defs = handleMouseDown_def handleMouseMove_def handleMouseUp_def
  moveHighlight_def handleAddHighlight_def handleUpdateSignature_def handleUpdateText_def
  startDrag_def startResize_def getRelativePosition_def generateId_def hl_with_id_def
  truthy_def resizeGeometry_def spread_sig_def spread_txt_def no_sig_updates_def
  no_txt_updates_def js_add_def js_sub_def

lemmas bake_defs = bakePages_def bake_def page_at_def draw_on_def trim_def isWhiteSpace_def
  sample_lib_def sample_pages_def

section \<open>Rounding to double precision\<close>

lemma round_ties_even_error: "\<bar>of_int (round_ties_even t) - t\<bar> \<le> 1 / 2"
proof -
  have "of_int \<lfloor>t\<rfloor> \<le> t" "t < of_int \<lfloor>t\<rfloor> + 1" by linarith+
  then show ?thesis
    by (auto simp: round_ties_even_def Let_def)
qed

lemma round_ties_even_int: "round_ties_even (of_int n) = n"
  by (simp add: round_ties_even_def)

lemma to_double_error: "\<bar>to_double x - x\<bar> \<le> 2 powi (quantum_exp x - 1)"
proof (cases "x = 0")
  case True
  then show ?thesis by (simp add: to_double_def)
next
  case False
  define q :: real where "q = 2 powi quantum_exp x"
  have q: "0 < q" by (simp add: q_def)
  have "to_double x - x = (of_int (round_ties_even (x / q)) - x / q) * q"
    using False q by (simp add: to_double_def q_def field_simps)
  then have "\<bar>to_double x - x\<bar> = \<bar>of_int (round_ties_even (x / q)) - x / q\<bar> * q"
    using q by (simp add: abs_mult)
  also have "\<dots> \<le> (1 / 2) * q"
    using round_ties_even_error [of "x / q"] q by (intro mult_right_mono) simp_all
  also have "\<dots> = 2 powi (quantum_exp x - 1)"
    by (simp add: q_def power_int_diff)
  finally show ?thesis .
qed

lemma floor_log2_log:
  assumes "0 < x"
  shows "floor_log2 x = \<lfloor>log 2 x\<rfloor>"
  using assms
proof (induction x rule: floor_log2.induct)
  case (1 x)
  consider "x < 1" | "2 \<le> x" | "1 \<le> x" "x < 2" by linarith
  then show ?case
  proof cases
    case 1
    have "log 2 (2 * x) = 1 + log 2 x" using "1.prems" by (simp add: log_mult)
    then have "\<lfloor>log 2 (2 * x)\<rfloor> = \<lfloor>log 2 x\<rfloor> + 1" by simp
    moreover have "floor_log2 (2 * x) = \<lfloor>log 2 (2 * x)\<rfloor>"
      using "1.IH"(1) "1.prems" 1 by simp
    ultimately show ?thesis
      using "1.prems" 1 by (subst floor_log2.simps) simp
  next
    case 2
    have "log 2 (x / 2) = log 2 x - 1" using 2 by (simp add: log_divide)
    then have "\<lfloor>log 2 (x / 2)\<rfloor> = \<lfloor>log 2 x\<rfloor> - 1" by simp
    moreover have "floor_log2 (x / 2) = \<lfloor>log 2 (x / 2)\<rfloor>"
      using "1.IH"(2) "1.prems" 2 by simp
    ultimately show ?thesis
      using "1.prems" 2 by (subst floor_log2.simps) simp
  next
    case 3
    have "0 \<le> log 2 x" using 3 by simp
    moreover have "log 2 x < log 2 2" using 3 "1.prems" by (simp del: log_eq_one)
    then have "log 2 x < 1" by simp
    ultimately have "\<lfloor>log 2 x\<rfloor> = 0" by linarith
    then show ?thesis
      using "1.prems" 3 by (subst floor_log2.simps) simp
  qed
qed

lemma quantum_exp_log:
  "x \<noteq> 0 \<Longrightarrow> quantum_exp x = max (\<lfloor>log 2 \<bar>x\<bar>\<rfloor> - 52) (- 1074)"
  by (simp add: quantum_exp_def floor_log2_log)

lemma floor_log2_eq:
  assumes "2 powi e \<le> \<bar>x\<bar>" and "\<bar>x\<bar> < 2 powi (e + 1)"
  shows "\<lfloor>log 2 \<bar>x\<bar>\<rfloor> = e"
proof -
  have "(0::real) < 2 powi e" by simp
  with assms(1) have "0 < \<bar>x\<bar>" by linarith
  moreover have "(2::real) powr real_of_int e = 2 powi e"
    and "(2::real) powr (real_of_int e + 1) = 2 powi (e + 1)"
    using powr_real_of_int' [of "2::real" e] powr_real_of_int' [of "2::real" "e + 1"]
    by simp_all
  ultimately show ?thesis
    using assms by (simp add: floor_log_eq_powr_iff)
qed

lemma to_double_eval:
  assumes "2 powi e \<le> \<bar>x\<bar>" and "\<bar>x\<bar> < 2 powi (e + 1)" and "- 1022 \<le> e"
  shows "to_double x = of_int (round_ties_even (x / 2 powi (e - 52))) * 2 powi (e - 52)"
proof -
  have "(0::real) < 2 powi e" by simp
  with assms(1) have "0 < \<bar>x\<bar>" by linarith
  then have "x \<noteq> 0" by simp
  moreover from this have "quantum_exp x = e - 52"
    using floor_log2_eq [OF assms(1,2)] assms(3) by (simp add: quantum_exp_log)
  ultimately show ?thesis by (simp add: to_double_def)
qed

lemma to_double_int:
  assumes "\<bar>n\<bar> < 2 ^ 53"
  shows "to_double (of_int n) = of_int n"
proof (cases "n = 0")
  case True
  then show ?thesis by (simp add: to_double_def)
next
  case False
  define e where "e = \<lfloor>log 2 \<bar>real_of_int n\<bar>\<rfloor>"
  have pos: "0 < \<bar>real_of_int n\<bar>" using False by simp
  have b: "2 powr real_of_int e \<le> \<bar>real_of_int n\<bar>"
    "\<bar>real_of_int n\<bar> < 2 powr (real_of_int e + 1)"
    using floor_log_eq_powr_iff [of "\<bar>real_of_int n\<bar>" 2 e] pos by (simp_all add: e_def)
  have "1 \<le> \<bar>n\<bar>" using False by simp
  then have "1 \<le> \<bar>real_of_int n\<bar>" by (metis of_int_abs of_int_1_le_iff)
  with b(2) have "1 < (2::real) powr (real_of_int e + 1)" by linarith
  then have "0 < real_of_int e + 1"
    using powr_less_cancel_iff [of 2 0 "real_of_int e + 1"] by simp
  then have e0: "0 \<le> e" by linarith
  have "\<bar>real_of_int n\<bar> < 2 ^ 53"
    using assms by (metis of_int_abs of_int_less_numeral_power_cancel_iff)
  with b(1) have "(2::real) powr real_of_int e < 2 ^ 53" by linarith
  then have "real_of_int e < 53"
    using powr_less_cancel_iff [of 2 "real_of_int e" 53] by simp
  then have e52: "e \<le> 52" by linarith
  have qe: "quantum_exp (of_int n) = e - 52"
    using e0 False by (simp add: quantum_exp_log e_def)
  define k where "k = nat (52 - e)"
  have "e - 52 = - int k" using e52 by (simp add: k_def)
  then have pk: "(2::real) powi (e - 52) = inverse (2 ^ k)"
    by (simp only: power_int_minus power_int_of_nat)
  have "real_of_int n / 2 powi (e - 52) = of_int (n * 2 ^ k)"
    by (simp add: pk field_simps)
  then have "round_ties_even (real_of_int n / 2 powi (e - 52)) = n * 2 ^ k"
    by (simp only: round_ties_even_int)
  then show ?thesis
    using False by (simp add: to_double_def qe pk)
qed

lemma to_double_numeral [simp]:
  "(numeral k :: int) < 2 ^ 53 \<Longrightarrow> to_double (numeral k) = numeral k"
  "(numeral k :: int) < 2 ^ 53 \<Longrightarrow> to_double (- numeral k) = - numeral k"
  "to_double 0 = 0" "to_double 1 = 1"
  using to_double_int [of "numeral k"] to_double_int [of "- numeral k"]
    to_double_int [of 0] to_double_int [of 1]
  by simp_all

section \<open>Updates and deletions of absent identifiers\<close>

lemma map_absent_id:
  assumes "\<forall>v \<in> set xs. key v \<noteq> i"
  shows "map (\<lambda>v. if key v = i then f v else v) xs = xs"
  using assms by (induction xs) simp_all

lemma filter_absent_id:
  assumes "\<forall>v \<in> set xs. key v \<noteq> i"
  shows "filter (\<lambda>v. key v \<noteq> i) xs = xs"
  using assms by (induction xs) simp_all

text \<open>
  Claim C9. For every store and every identifier that no annotation of the store carries,
  \<open>handleUpdateSignature\<close>, \<open>handleUpdateText\<close>, \<open>handleDeleteSignature\<close>,
  \<open>handleDeleteText\<close> and \<open>handleDeleteHighlight\<close> return the state they were given: the
  three collections are unchanged, and so is everything else. The handlers are total
  functions with no error branch, as the \<open>map\<close> and \<open>filter\<close> of the source are.
\<close>

theorem absent_id_noop:
  assumes "i \<notin> store_ids (annotations st)"
  shows "handleUpdateSignature i su st = st
       \<and> handleUpdateText i tu st = st
       \<and> handleDeleteSignature i st = st
       \<and> handleDeleteText i st = st
       \<and> handleDeleteHighlight i st = st"
proof -
  have s: "\<forall>v \<in> set (signatures (annotations st)). sig_id v \<noteq> i"
    and t: "\<forall>v \<in> set (texts (annotations st)). txt_id v \<noteq> i"
    and h: "\<forall>v \<in> set (highlights (annotations st)). hl_id v \<noteq> i"
    using assms by (auto simp: store_ids_def)
  show ?thesis
    unfolding handleUpdateSignature_def handleUpdateText_def handleDeleteSignature_def
      handleDeleteText_def handleDeleteHighlight_def
    by (simp add: map_absent_id [OF s] map_absent_id [OF t]
        filter_absent_id [OF s] filter_absent_id [OF t] filter_absent_id [OF h])
qed

theorem absent_id_noop_witness:
  "''zzzzzzz'' \<notin> store_ids (annotations sample_state)
   \<and> handleUpdateSignature ''zzzzzzz'' (no_sig_updates\<lparr>sp_x := Some 5\<rparr>) sample_state = sample_state
   \<and> handleUpdateText ''zzzzzzz'' (no_txt_updates\<lparr>tp_text := Some [120]\<rparr>) sample_state = sample_state
   \<and> handleDeleteSignature ''zzzzzzz'' sample_state = sample_state
   \<and> handleDeleteText ''zzzzzzz'' sample_state = sample_state
   \<and> handleDeleteHighlight ''zzzzzzz'' sample_state = sample_state"
proof -
  have h: "''zzzzzzz'' \<notin> store_ids (annotations sample_state)"
    by (simp add: store_ids_def sample_state_def sample_signature_def sample_text_def
        sample_highlight_def)
  show ?thesis
    using h absent_id_noop [OF h] by simp
qed

section \<open>Pointer position in document space\<close>

text \<open>
  Claim C2. With the container available, at left edge \<open>rect_left\<close> and top edge
  \<open>rect_top\<close>, a pointer at \<open>(clientX, clientY)\<close> under zoom \<open>sc\<close> is converted to
  \<open>((clientX - rect_left) / sc, (clientY - rect_top) / sc)\<close>; with no container the
  result is \<open>(0, 0)\<close>. The conversion is a function of the container rectangle, the
  scale and the pointer position and of nothing else. The zoom is not zero.
\<close>

theorem pointer_to_document:
  assumes "sc \<noteq> 0"
  shows "getRelativePosition (Some rect) sc e =
           ((clientX e - rect_left rect) / sc, (clientY e - rect_top rect) / sc)
       \<and> getRelativePosition None sc e = (0, 0)"
  by (simp add: getRelativePosition_def)

theorem pointer_to_document_witness:
  "(2::real) \<noteq> 0
   \<and> getRelativePosition (Some \<lparr>rect_left = 40, rect_top = 20\<rparr>) 2
        \<lparr>clientX = 240, clientY = 220\<rparr> = (100, 100)
   \<and> getRelativePosition None 2 \<lparr>clientX = 240, clientY = 220\<rparr> = (0, 0)"
  using pointer_to_document [of 2 "\<lparr>rect_left = 40, rect_top = 20\<rparr>" "\<lparr>clientX = 240, clientY = 220\<rparr>"]
  by simp

section \<open>Placing a signature\<close>

text \<open>
  Claim C3. A click at document-space position \<open>(x, y)\<close> while the tool is \<open>sign\<close>, a
  stamp is pending and neither a drag nor a resize is active appends exactly one
  signature to the store: at \<open>(x, y)\<close>, 150 wide and 60 high, on the current page,
  carrying the stamp; texts and highlights are untouched and the pending stamp is
  cleared. While a drag or a resize is active, or with no pending stamp, a click leaves
  the signatures as they are. Pending and active are what the handler tests: a string
  that is neither \<open>null\<close> nor empty, a resize descriptor that is not \<open>null\<close>.
\<close>

theorem placement_click:
  assumes "scale st \<noteq> 0"
    and "getRelativePosition (container st) (scale st) e = (x, y)"
  shows "(activeTool st = Tool_sign \<and> truthy (signatureToPlace st)
          \<and> \<not> drag_active st \<and> \<not> resize_active st \<longrightarrow>
            signatures (annotations (handleClick e st)) =
              signatures (annotations st) @
                [\<lparr>sig_id = generateId st, sig_x = x, sig_y = y, sig_width = 150,
                  sig_height = 60, sig_dataUrl = the (signatureToPlace st),
                  sig_page = currentPage st\<rparr>]
            \<and> texts (annotations (handleClick e st)) = texts (annotations st)
            \<and> highlights (annotations (handleClick e st)) = highlights (annotations st)
            \<and> signatureToPlace (handleClick e st) = None)
       \<and> (drag_active st \<or> resize_active st \<or> \<not> truthy (signatureToPlace st) \<longrightarrow>
            signatures (annotations (handleClick e st)) = signatures (annotations st))"
  using assms
  by (simp add: handleClick_def drag_active_def resize_active_def onSignaturePlaced_def
      handleAddSignature_def handleAddText_def sig_with_id_def)

theorem placement_click_witness:
  "signatures (annotations (handleClick sample_click sample_sign_state)) =
     [sample_signature,
      \<lparr>sig_id = ''a'', sig_x = 270, sig_y = 170, sig_width = 150, sig_height = 60,
       sig_dataUrl = ''data:image/png;base64,AAAA'', sig_page = 1\<rparr>]
   \<and> signatureToPlace (handleClick sample_click sample_sign_state) = None
   \<and> signatures (annotations (handleClick sample_click sample_resize_se)) = [sample_signature]"
proof -
  have p: "getRelativePosition (container sample_sign_state) (scale sample_sign_state)
             sample_click = (270, 170)"
    and q: "getRelativePosition (container sample_resize_se) (scale sample_resize_se)
             sample_click = (270, 170)"
    by (simp_all add: getRelativePosition_def sample_sign_state_def sample_resize_se_def
        sample_state_def sample_click_def)
  have a: "scale sample_sign_state \<noteq> 0" and b: "scale sample_resize_se \<noteq> 0"
    by (simp_all add: sample_sign_state_def sample_resize_se_def sample_state_def)
  show ?thesis
    using placement_click [OF a p] placement_click [OF b q]
    by (simp add: sample_sign_state_def sample_resize_se_def sample_state_def truthy_def
        drag_active_def resize_active_def generateId_def)
qed

section \<open>What a move leaves alone\<close>

lemma move_keeps:
  "highlightStart (handleMouseMove e st) = highlightStart st"
  "activeTool (handleMouseMove e st) = activeTool st"
  "container (handleMouseMove e st) = container st"
  "scale (handleMouseMove e st) = scale st"
  "currentPage (handleMouseMove e st) = currentPage st"
  "highlights (annotations (handleMouseMove e st)) = highlights (annotations st)"
  "idCount (handleMouseMove e st) = idCount st"
  "idSeq (handleMouseMove e st) = idSeq st"
  "resizing (handleMouseMove e st) = resizing st"
  "draggingId (handleMouseMove e st) = draggingId st"
  "dragOffset (handleMouseMove e st) = dragOffset st"
  by (simp_all add: handleMouseMove_def moveHighlight_def handleUpdateSignature_def
      handleUpdateText_def Let_def split: option.split prod.split)

lemma moves_keep:
  "highlightStart (run_events st (map PointerMove es)) = highlightStart st"
  "activeTool (run_events st (map PointerMove es)) = activeTool st"
  "container (run_events st (map PointerMove es)) = container st"
  "scale (run_events st (map PointerMove es)) = scale st"
  "currentPage (run_events st (map PointerMove es)) = currentPage st"
  "highlights (annotations (run_events st (map PointerMove es))) = highlights (annotations st)"
  "idCount (run_events st (map PointerMove es)) = idCount st"
  "idSeq (run_events st (map PointerMove es)) = idSeq st"
  "resizing (run_events st (map PointerMove es)) = resizing st"
  "draggingId (run_events st (map PointerMove es)) = draggingId st"
  "dragOffset (run_events st (map PointerMove es)) = dragOffset st"
  by (induction es arbitrary: st; simp add: run_events_def move_keeps)+

section \<open>Resizing a signature\<close>

lemma resize_step:
  assumes "resizing st = Some rz"
    and "\<exists>s \<in> set (signatures (annotations st)). sig_id s = rz_id rz"
    and "resizeGeometry rz (getRelativePosition (container st) (scale st) e) =
           (newX, newY, newWidth, newHeight)"
  shows "signatures (annotations (handleMouseMove e st)) =
           map (\<lambda>s. if sig_id s = rz_id rz
                     then s\<lparr>sig_x := newX, sig_y := newY,
                            sig_width := newWidth, sig_height := newHeight\<rparr>
                     else s)
             (signatures (annotations st))"
proof -
  from assms(2) obtain sg where
    "find (\<lambda>s. sig_id s = rz_id rz) (signatures (annotations st)) = Some sg"
    by (cases "find (\<lambda>s. sig_id s = rz_id rz) (signatures (annotations st))")
      (auto simp: find_None_iff)
  then show ?thesis
    using assms(1,3)
    by (simp add: handleMouseMove_def handleUpdateSignature_def moveHighlight_def
        spread_sig_def no_sig_updates_def Let_def split: option.split prod.split)
qed

lemma resize_keeps_texts:
  assumes "resizing st = Some rz"
  shows "texts (annotations (handleMouseMove e st)) = texts (annotations st)"
  using assms
  by (simp add: handleMouseMove_def handleUpdateSignature_def moveHighlight_def Let_def
      split: option.split prod.split)

lemma resize_moves_keep_texts:
  assumes "resizing st = Some rz"
  shows "texts (annotations (run_events st (map PointerMove moves))) = texts (annotations st)"
  using assms
proof (induction moves arbitrary: st)
  case Nil
  show ?case by (simp add: run_events_def)
next
  case (Cons m moves)
  have "resizing (handleMouseMove m st) = Some rz"
    by (simp add: move_keeps Cons.prems)
  from Cons.IH [OF this] show ?case
    by (simp add: run_events_def resize_keeps_texts [OF Cons.prems])
qed

lemma resize_moves:
  assumes "resizing st = Some rz"
    and "\<exists>s \<in> set (signatures (annotations st)). sig_id s = rz_id rz"
    and "resizeGeometry rz (getRelativePosition (container st) (scale st) e) =
           (newX, newY, newWidth, newHeight)"
  shows "signatures (annotations (run_events st (map PointerMove (moves @ [e])))) =
           map (\<lambda>s. if sig_id s = rz_id rz
                     then s\<lparr>sig_x := newX, sig_y := newY,
                            sig_width := newWidth, sig_height := newHeight\<rparr>
                     else s)
             (signatures (annotations st))
       \<and> resizing (run_events st (map PointerMove (moves @ [e]))) = Some rz"
  using assms
proof (induction moves arbitrary: st)
  case Nil
  then show ?case
    using resize_step [OF Nil.prems] by (simp add: run_events_def move_keeps)
next
  case (Cons m moves)
  define st' where "st' = handleMouseMove m st"
  obtain mx my mw mh where
    g: "resizeGeometry rz (getRelativePosition (container st) (scale st) m) = (mx, my, mw, mh)"
    by (metis prod_cases4)
  have sigs: "signatures (annotations st') =
      map (\<lambda>s. if sig_id s = rz_id rz
                then s\<lparr>sig_x := mx, sig_y := my, sig_width := mw, sig_height := mh\<rparr>
                else s)
        (signatures (annotations st))"
    unfolding st'_def by (rule resize_step [OF Cons.prems(1,2) g])
  have r: "resizing st' = Some rz"
    and c: "container st' = container st" "scale st' = scale st"
    by (simp_all add: st'_def move_keeps Cons.prems(1))
  have "map sig_id (signatures (annotations st')) = map sig_id (signatures (annotations st))"
    unfolding sigs by (induction "signatures (annotations st)") simp_all
  then have "sig_id ` set (signatures (annotations st')) =
      sig_id ` set (signatures (annotations st))"
    by (metis set_map)
  then have ex: "\<exists>s \<in> set (signatures (annotations st')). sig_id s = rz_id rz"
    using Cons.prems(2) by (metis imageE imageI)
  have g': "resizeGeometry rz (getRelativePosition (container st') (scale st') e) =
           (newX, newY, newWidth, newHeight)"
    using Cons.prems(3) by (simp add: c)
  have "run_events st (map PointerMove ((m # moves) @ [e])) =
      run_events st' (map PointerMove (moves @ [e]))"
    by (simp add: run_events_def st'_def)
  then show ?case
    using Cons.IH [OF r ex g'] by (simp add: sigs comp_def cong: map_cong)
qed

lemma opposite_edge_drift:
  "\<bar>js_add a (js_sub w n) + n - (a + w)\<bar> \<le> half_ulp (a + js_sub w n) + half_ulp (w - n)"
proof -
  have "js_add a (js_sub w n) + n - (a + w) =
      (to_double (a + js_sub w n) - (a + js_sub w n)) + (to_double (w - n) - (w - n))"
    by (simp add: js_add_def js_sub_def)
  also have "\<bar>\<dots>\<bar> \<le> \<bar>to_double (a + js_sub w n) - (a + js_sub w n)\<bar>
      + \<bar>to_double (w - n) - (w - n)\<bar>"
    by (rule abs_triangle_ineq)
  also have "\<dots> \<le> half_ulp (a + js_sub w n) + half_ulp (w - n)"
    unfolding half_ulp_def by (intro add_mono to_double_error)
  finally show ?thesis .
qed

lemma drift_left: "js_add (7693649363424597 / 140737488355328) 10 = 2275256061744469 / 35184372088832"
  unfolding js_add_def
  using to_double_eval [of 6 "7693649363424597 / 140737488355328 + 10"]
  by (simp add: round_ties_even_def)

lemma drift_right_after: "js_add (2275256061744469 / 35184372088832) 192 = 2257663875700053 / 8796093022208"
  unfolding js_add_def
  using to_double_eval [of 8 "2275256061744469 / 35184372088832 + 192"]
  by (simp add: round_ties_even_def)

lemma drift_right_before: "js_add (7693649363424597 / 140737488355328) 202 = 4515327751400107 / 17592186044416"
  unfolding js_add_def
  using to_double_eval [of 8 "7693649363424597 / 140737488355328 + 202"]
  by (simp add: round_ties_even_def)

text \<open>
  Claim C4, as stated, fails: the corner opposite the handle is not always kept exactly.
  For a west or north handle the new position is \<open>startLeft + (startWidth - newWidth)\<close>
  (or its vertical analogue), computed in double precision, and the sum rounds. A
  signature placed at zoom 0.75 by a click 41 pixels into the container has
  \<open>x = 54.666666666666664\<close>; widened to 202 and, at zoom 1, dragged by its south-west
  handle 10 units to the right, it gets the width 192 and \<open>x = 64.66666666666666\<close>. Its
  right edge, \<open>x + width\<close>, was \<open>256.6666666666667\<close> and is now \<open>256.66666666666663\<close>, as
  exact sums and as JavaScript sums.
\<close>

theorem resize_corner_counterexample:
  "signatures (annotations (run_events sample_drift_state
      [PointerDown (OnHandle sample_drift_signature Handle_sw) \<lparr>clientX = 95, clientY = 180\<rparr>,
       PointerMove \<lparr>clientX = 105, clientY = 180\<rparr>])) =
     [sample_drift_signature\<lparr>sig_x := 2275256061744469 / 35184372088832, sig_width := 192\<rparr>]
   \<and> 2275256061744469 / 35184372088832 + 192 \<noteq>
       sig_x sample_drift_signature + sig_width sample_drift_signature
   \<and> js_add (2275256061744469 / 35184372088832) 192 \<noteq>
       js_add (sig_x sample_drift_signature) (sig_width sample_drift_signature)"
proof -
  have g: "resizeGeometry
      \<lparr>rz_id = ''k3x9q2a'', rz_handle = Handle_sw, startX = 55, startY = 160,
       startWidth = 202, startHeight = 60,
       startLeft = 7693649363424597 / 140737488355328, startTop = 100\<rparr> (65, 160) =
      (2275256061744469 / 35184372088832, 100, 192, 60)"
    by (simp add: resizeGeometry_def Let_def js_sub_def drift_left)
      (simp add: js_add_def)
  have "signatures (annotations (run_events sample_drift_state
      [PointerDown (OnHandle sample_drift_signature Handle_sw) \<lparr>clientX = 95, clientY = 180\<rparr>,
       PointerMove \<lparr>clientX = 105, clientY = 180\<rparr>])) =
     [sample_drift_signature\<lparr>sig_x := 2275256061744469 / 35184372088832, sig_width := 192\<rparr>]"
    by (simp add: run_events_def sample_drift_state_def sample_drift_signature_def sample_defs
        startResize_def handleMouseMove_def moveHighlight_def handleUpdateSignature_def
        getRelativePosition_def spread_sig_def no_sig_updates_def g)
  moreover have "2275256061744469 / 35184372088832 + 192 \<noteq>
       sig_x sample_drift_signature + sig_width sample_drift_signature"
    by (simp add: sample_drift_signature_def sample_signature_def)
  moreover have "js_add (2275256061744469 / 35184372088832) 192 \<noteq>
       js_add (sig_x sample_drift_signature) (sig_width sample_drift_signature)"
    by (simp add: sample_drift_signature_def sample_signature_def drift_right_after
        drift_right_before)
  ultimately show ?thesis by simp
qed

text \<open>
  Claim C4, amended. Take a press on the corner handle \<open>h\<close> of a signature of the store,
  under a tool other than highlight, followed by any number of moves, the last one at
  the pointer delta \<open>(deltaX, deltaY)\<close> from the press position, sums and differences
  being those of double precision. Every signature with that identifier then has the
  width \<open>max 50 (startWidth \<plusminus> deltaX)\<close> and the height \<open>max 30 (startHeight \<plusminus> deltaY)\<close>,
  where the start geometry is the one the signature had at the press, plus for the east
  and south handles and minus for the west and north ones; other signatures are
  unchanged. The position is \<open>startLeft\<close> for an east handle and
  \<open>startLeft + (startWidth - newWidth)\<close> for a west one, \<open>startTop\<close> for a south handle and
  \<open>startTop + (startHeight - newHeight)\<close> for a north one. So a coordinate of the opposite
  corner on an edge the handle does not move is kept exactly (both of them for \<open>se\<close>),
  and the right edge under a west handle, the bottom edge under a north handle, is kept
  up to the rounding of the two operations: by at most half a unit in the last place
  of each. The clamp at 50 by 30 changes none of this.
\<close>

theorem resize_move:
  assumes "scale st \<noteq> 0" and "activeTool st \<noteq> Tool_highlight"
    and "sg \<in> set (signatures (annotations st))"
    and "getRelativePosition (container st) (scale st) press = (sx, sy)"
    and "getRelativePosition (container st) (scale st) e = (px, py)"
    and "after = run_events st (PointerDown (OnHandle sg h) press # map PointerMove (moves @ [e]))"
    and "deltaX = js_sub px sx" and "deltaY = js_sub py sy"
  shows "\<exists>newX newY newWidth newHeight.
           signatures (annotations after) =
             map (\<lambda>s. if sig_id s = sig_id sg
                       then s\<lparr>sig_x := newX, sig_y := newY,
                              sig_width := newWidth, sig_height := newHeight\<rparr>
                       else s)
               (signatures (annotations st))
         \<and> texts (annotations after) = texts (annotations st)
         \<and> highlights (annotations after) = highlights (annotations st)
         \<and> (case h of
               Handle_se \<Rightarrow>
                 newWidth = max 50 (js_add (sig_width sg) deltaX)
                 \<and> newHeight = max 30 (js_add (sig_height sg) deltaY)
                 \<and> newX = sig_x sg \<and> newY = sig_y sg
             | Handle_sw \<Rightarrow>
                 newWidth = max 50 (js_sub (sig_width sg) deltaX)
                 \<and> newHeight = max 30 (js_add (sig_height sg) deltaY)
                 \<and> newX = js_add (sig_x sg) (js_sub (sig_width sg) newWidth)
                 \<and> newY = sig_y sg
                 \<and> \<bar>newX + newWidth - (sig_x sg + sig_width sg)\<bar>
                     \<le> half_ulp (sig_x sg + js_sub (sig_width sg) newWidth)
                       + half_ulp (sig_width sg - newWidth)
             | Handle_ne \<Rightarrow>
                 newWidth = max 50 (js_add (sig_width sg) deltaX)
                 \<and> newHeight = max 30 (js_sub (sig_height sg) deltaY)
                 \<and> newX = sig_x sg
                 \<and> newY = js_add (sig_y sg) (js_sub (sig_height sg) newHeight)
                 \<and> \<bar>newY + newHeight - (sig_y sg + sig_height sg)\<bar>
                     \<le> half_ulp (sig_y sg + js_sub (sig_height sg) newHeight)
                       + half_ulp (sig_height sg - newHeight)
             | Handle_nw \<Rightarrow>
                 newWidth = max 50 (js_sub (sig_width sg) deltaX)
                 \<and> newHeight = max 30 (js_sub (sig_height sg) deltaY)
                 \<and> newX = js_add (sig_x sg) (js_sub (sig_width sg) newWidth)
                 \<and> newY = js_add (sig_y sg) (js_sub (sig_height sg) newHeight)
                 \<and> \<bar>newX + newWidth - (sig_x sg + sig_width sg)\<bar>
                     \<le> half_ulp (sig_x sg + js_sub (sig_width sg) newWidth)
                       + half_ulp (sig_width sg - newWidth)
                 \<and> \<bar>newY + newHeight - (sig_y sg + sig_height sg)\<bar>
                     \<le> half_ulp (sig_y sg + js_sub (sig_height sg) newHeight)
                       + half_ulp (sig_height sg - newHeight))"
proof -
  define rz where "rz =
    \<lparr>rz_id = sig_id sg, rz_handle = h, startX = sx, startY = sy,
     startWidth = sig_width sg, startHeight = sig_height sg,
     startLeft = sig_x sg, startTop = sig_y sg\<rparr>"
  define s1 where "s1 = startResize press (sig_id sg) h sg st"
  have s1: "resizing s1 = Some rz" "container s1 = container st" "scale s1 = scale st"
    "signatures (annotations s1) = signatures (annotations st)"
    using assms(4) by (simp_all add: s1_def rz_def startResize_def)
  have after: "after = run_events s1 (map PointerMove (moves @ [e]))"
    using assms(2) by (simp add: assms(6) run_events_def s1_def)
  have ex: "\<exists>s \<in> set (signatures (annotations s1)). sig_id s = rz_id rz"
    using assms(3) by (auto simp: s1 rz_def)
  obtain nx ny nw nh where
    g: "resizeGeometry rz (getRelativePosition (container s1) (scale s1) e) = (nx, ny, nw, nh)"
    by (metis prod_cases4)
  have upd: "signatures (annotations after) =
      map (\<lambda>s. if sig_id s = sig_id sg
                then s\<lparr>sig_x := nx, sig_y := ny, sig_width := nw, sig_height := nh\<rparr>
                else s)
        (signatures (annotations st))"
    using resize_moves [OF s1(1) ex g, of moves] by (simp add: after s1(4) rz_def)
  have g': "resizeGeometry rz (px, py) = (nx, ny, nw, nh)"
    using g assms(5) by (simp add: s1)
  have s1': "texts (annotations s1) = texts (annotations st)"
    "highlights (annotations s1) = highlights (annotations st)"
    by (simp_all add: s1_def startResize_def split: prod.split)
  have rest: "texts (annotations after) = texts (annotations st)"
    "highlights (annotations after) = highlights (annotations st)"
    using resize_moves_keep_texts [OF s1(1), of "moves @ [e]"]
      moves_keep(6) [of s1 "moves @ [e]"]
    by (simp_all only: after s1')
  have geo: "case h of
               Handle_se \<Rightarrow>
                 nw = max 50 (js_add (sig_width sg) deltaX)
                 \<and> nh = max 30 (js_add (sig_height sg) deltaY)
                 \<and> nx = sig_x sg \<and> ny = sig_y sg
             | Handle_sw \<Rightarrow>
                 nw = max 50 (js_sub (sig_width sg) deltaX)
                 \<and> nh = max 30 (js_add (sig_height sg) deltaY)
                 \<and> nx = js_add (sig_x sg) (js_sub (sig_width sg) nw)
                 \<and> ny = sig_y sg
                 \<and> \<bar>nx + nw - (sig_x sg + sig_width sg)\<bar>
                     \<le> half_ulp (sig_x sg + js_sub (sig_width sg) nw)
                       + half_ulp (sig_width sg - nw)
             | Handle_ne \<Rightarrow>
                 nw = max 50 (js_add (sig_width sg) deltaX)
                 \<and> nh = max 30 (js_sub (sig_height sg) deltaY)
                 \<and> nx = sig_x sg
                 \<and> ny = js_add (sig_y sg) (js_sub (sig_height sg) nh)
                 \<and> \<bar>ny + nh - (sig_y sg + sig_height sg)\<bar>
                     \<le> half_ulp (sig_y sg + js_sub (sig_height sg) nh)
                       + half_ulp (sig_height sg - nh)
             | Handle_nw \<Rightarrow>
                 nw = max 50 (js_sub (sig_width sg) deltaX)
                 \<and> nh = max 30 (js_sub (sig_height sg) deltaY)
                 \<and> nx = js_add (sig_x sg) (js_sub (sig_width sg) nw)
                 \<and> ny = js_add (sig_y sg) (js_sub (sig_height sg) nh)
                 \<and> \<bar>nx + nw - (sig_x sg + sig_width sg)\<bar>
                     \<le> half_ulp (sig_x sg + js_sub (sig_width sg) nw)
                       + half_ulp (sig_width sg - nw)
                 \<and> \<bar>ny + nh - (sig_y sg + sig_height sg)\<bar>
                     \<le> half_ulp (sig_y sg + js_sub (sig_height sg) nh)
                       + half_ulp (sig_height sg - nh)"
    using g' assms(7,8)
    by (cases h) (auto simp: resizeGeometry_def rz_def Let_def opposite_edge_drift)
  from upd rest geo show ?thesis by blast
qed

theorem resize_move_witness:
  "signatures (annotations (run_events sample_state
      [PointerDown (OnHandle sample_signature Handle_se) \<lparr>clientX = 540, clientY = 340\<rparr>,
       PointerMove \<lparr>clientX = 600, clientY = 400\<rparr>,
       PointerMove \<lparr>clientX = 580, clientY = 360\<rparr>])) =
     [sample_signature\<lparr>sig_width := 170, sig_height := 70\<rparr>]
   \<and> signatures (annotations (run_events sample_state
      [PointerDown (OnHandle sample_signature Handle_nw) \<lparr>clientX = 240, clientY = 220\<rparr>,
       PointerMove \<lparr>clientX = 300, clientY = 230\<rparr>,
       PointerMove \<lparr>clientX = 520, clientY = 240\<rparr>])) =
     [sample_signature\<lparr>sig_x := 200, sig_y := 110, sig_width := 50, sig_height := 50\<rparr>]"
proof -
  have sc: "scale sample_state \<noteq> 0" and tool: "activeTool sample_state \<noteq> Tool_highlight"
    and mem: "sample_signature \<in> set (signatures (annotations sample_state))"
    and sigs: "signatures (annotations sample_state) = [sample_signature]"
    by (simp_all add: sample_state_def)
  have p: "getRelativePosition (container sample_state) (scale sample_state)
             \<lparr>clientX = 540, clientY = 340\<rparr> = (250, 160)"
    "getRelativePosition (container sample_state) (scale sample_state)
             \<lparr>clientX = 580, clientY = 360\<rparr> = (270, 170)"
    "getRelativePosition (container sample_state) (scale sample_state)
             \<lparr>clientX = 240, clientY = 220\<rparr> = (100, 100)"
    "getRelativePosition (container sample_state) (scale sample_state)
             \<lparr>clientX = 520, clientY = 240\<rparr> = (240, 110)"
    by (simp_all add: getRelativePosition_def sample_state_def)
  have "signatures (annotations (run_events sample_state
      (PointerDown (OnHandle sample_signature Handle_se) \<lparr>clientX = 540, clientY = 340\<rparr> #
       map PointerMove ([\<lparr>clientX = 600, clientY = 400\<rparr>] @
         [\<lparr>clientX = 580, clientY = 360\<rparr>])))) =
     [sample_signature\<lparr>sig_width := 170, sig_height := 70\<rparr>]"
    using resize_move [where moves = "[\<lparr>clientX = 600, clientY = 400\<rparr>]" and h = Handle_se,
        OF sc tool mem p(1) p(2) refl refl refl]
    by (auto simp: sigs sample_signature_def js_add_def js_sub_def)
  moreover have "signatures (annotations (run_events sample_state
      (PointerDown (OnHandle sample_signature Handle_nw) \<lparr>clientX = 240, clientY = 220\<rparr> #
       map PointerMove ([\<lparr>clientX = 300, clientY = 230\<rparr>] @
         [\<lparr>clientX = 520, clientY = 240\<rparr>])))) =
     [sample_signature\<lparr>sig_x := 200, sig_y := 110, sig_width := 50, sig_height := 50\<rparr>]"
    using resize_move [where moves = "[\<lparr>clientX = 300, clientY = 230\<rparr>]" and h = Handle_nw,
        OF sc tool mem p(3) p(4) refl refl refl]
    by (auto simp: sigs sample_signature_def js_add_def js_sub_def)
  ultimately show ?thesis by simp
qed

section \<open>Highlight rubber band\<close>





section \<open>What the export leaves alone\<close>

text \<open>
  Claim C10. Whatever the library calls return, \<open>handleDownload\<close> leaves the
  annotations, the current page, the scale, the active tool, the pending stamp and the
  input file as they were: the state after it is the state before it with a toast
  added and \<open>isProcessing\<close> false. The flag is set to true before the first \<open>await\<close>.
\<close>

theorem export_frame:
  "fst (handleDownload L st) =
     st\<lparr>toasts := toasts (fst (handleDownload L st)), isProcessing := False\<rparr>
   \<and> annotations (fst (handleDownload L st)) = annotations st
   \<and> currentPage (fst (handleDownload L st)) = currentPage st
   \<and> scale (fst (handleDownload L st)) = scale st
   \<and> activeTool (fst (handleDownload L st)) = activeTool st
   \<and> signatureToPlace (fst (handleDownload L st)) = signatureToPlace st
   \<and> inputFile (fst (handleDownload L st)) = inputFile st
   \<and> downloadStart st = st\<lparr>isProcessing := True\<rparr>
   \<and> \<not> isProcessing (fst (handleDownload L st))"
  by (simp add: handleDownload_def downloadFinish_def downloadStart_def split: sum.split)

section \<open>Mutual exclusion of the gestures\<close>

lemma move_keeps_gestures:
  "drag_active (handleMouseMove e st) = drag_active st"
  "resize_active (handleMouseMove e st) = resize_active st"
  "band_active (handleMouseMove e st) = band_active st"
  by (auto simp: drag_active_def resize_active_def band_active_def handleMouseMove_def
      moveHighlight_def handleUpdateSignature_def handleUpdateText_def Let_def
      split: option.splits prod.splits if_splits)

lemma release_idle: "gesture_idle (handleMouseUp st)"
  by (simp add: gesture_idle_def drag_active_def resize_active_def band_active_def
      handleMouseUp_def handleAddHighlight_def truthy_def Let_def split: option.split)

lemma press_from_idle:
  assumes "gesture_idle st"
  shows "at_most_one_gesture (pointerDown tg e st)"
  using assms
  by (cases tg)
    (auto simp: gesture_idle_def at_most_one_gesture_def drag_active_def resize_active_def
      band_active_def handleMouseDown_def startDrag_def startResize_def
      split: prod.splits if_splits)

lemma idle_at_most_one: "gesture_idle st \<Longrightarrow> at_most_one_gesture st"
  by (simp add: gesture_idle_def at_most_one_gesture_def)

lemma run_keeps_exclusion:
  assumes "one_press_at_a_time p es"
    and "if p then at_most_one_gesture st else gesture_idle st"
  shows "at_most_one_gesture (run_events st es)"
  using assms
proof (induction es arbitrary: st p)
  case Nil
  then show ?case
    by (auto simp: run_events_def idle_at_most_one split: if_splits)
next
  case (Cons ev es)
  show ?case
  proof (cases ev)
    case (PointerDown tg e)
    with Cons.prems have idle: "gesture_idle st" and rest: "one_press_at_a_time True es"
      by (auto split: if_splits)
    have "at_most_one_gesture (run_events (pointerDown tg e st) es)"
      using Cons.IH [OF rest, of "pointerDown tg e st"] press_from_idle [OF idle] by simp
    then show ?thesis using PointerDown by (simp add: run_events_def)
  next
    case (PointerMove e)
    with Cons.prems have rest: "one_press_at_a_time p es" by simp
    have "if p then at_most_one_gesture (handleMouseMove e st)
          else gesture_idle (handleMouseMove e st)"
      using Cons.prems(2)
      by (cases p) (simp_all add: at_most_one_gesture_def gesture_idle_def move_keeps_gestures)
    from Cons.IH [OF rest this] show ?thesis using PointerMove by (simp add: run_events_def)
  next
    case PointerUp
    with Cons.prems have rest: "one_press_at_a_time False es" by simp
    from Cons.IH [OF rest, of "handleMouseUp st"] release_idle
    show ?thesis using PointerUp by (simp add: run_events_def)
  next
    case PointerLeave
    with Cons.prems have rest: "one_press_at_a_time False es" by simp
    from Cons.IH [OF rest, of "handleMouseUp st"] release_idle
    show ?thesis using PointerLeave by (simp add: run_events_def)
  qed
qed

text \<open>
  Claim C7, as stated, fails. No handler looks at the other descriptors before it sets
  its own, so a second press that arrives before a release adds a second gesture: a
  press on the south-east handle of a signature starts a resize, a move towards the top
  left shrinks the signature to 50 by 30 under the pointer, and a press with another
  button on its body starts a drag while the resize is still active.
\<close>

theorem gesture_exclusion_counterexample:
  "gesture_idle sample_state
   \<and> drag_active (run_events sample_state sample_two_presses)
   \<and> resize_active (run_events sample_state sample_two_presses)
   \<and> \<not> at_most_one_gesture (run_events sample_state sample_two_presses)"
  by (simp add: gesture_idle_def at_most_one_gesture_def drag_active_def resize_active_def
      band_active_def run_events_def sample_two_presses_def sample_resized_def sample_defs
      handler_defs)

text \<open>
  Claim C7, amended. From an idle state, along every sequence of pointer events in
  which no press follows another press without a release or a leave in between, at most
  one of the drag descriptor, the resize descriptor and the rubber band is active; and
  in every state whatsoever a release and a leave reset all three.
\<close>

theorem gesture_exclusion:
  assumes "gesture_idle st" and "one_press_at_a_time False es"
  shows "at_most_one_gesture (run_events st es)
       \<and> gesture_idle (pointer_step s PointerUp)
       \<and> gesture_idle (pointer_step s PointerLeave)"
  using run_keeps_exclusion [OF assms(2), of st] assms(1) release_idle by simp

theorem gesture_exclusion_witness:
  "gesture_idle sample_state \<and> one_press_at_a_time False sample_gesture
   \<and> at_most_one_gesture (run_events sample_state sample_gesture)
   \<and> drag_active (run_events sample_state sample_gesture)
   \<and> gesture_idle (pointer_step (run_events sample_state sample_gesture) PointerLeave)"
proof -
  have i: "gesture_idle sample_state"
    by (simp add: gesture_idle_def drag_active_def resize_active_def band_active_def
        sample_state_def truthy_def)
  have o: "one_press_at_a_time False sample_gesture"
    by (simp add: sample_gesture_def)
  have d: "drag_active (run_events sample_state sample_gesture)"
    by (simp add: drag_active_def run_events_def sample_gesture_def sample_resized_def
        sample_defs handler_defs)
  show ?thesis
    using gesture_exclusion [OF i o, of "run_events sample_state sample_gesture"] i o d
    by simp
qed

section \<open>Coordinates of the baked annotations\<close>

lemma page_at_None: "page_at pages (p - 1) = None \<longleftrightarrow> \<not> has_page (length pages) p"
  by (auto simp: page_at_def has_page_def)

lemma page_at_Some:
  "page_at pages (p - 1) = Some pg \<longleftrightarrow> has_page (length pages) p \<and> pg = pages ! nat (p - 1)"
  by (auto simp: page_at_def has_page_def)

lemma length_draw_on: "length (draw_on pages n op) = length pages"
  by (simp add: draw_on_def)

lemma draw_on_nth:
  assumes "has_page (length pages) p" and "k < length pages"
  shows "page_height (draw_on pages (p - 1) op ! k) = page_height (pages ! k)"
    and "page_content (draw_on pages (p - 1) op ! k) =
           (if p = int k + 1 then page_content (pages ! k) @ [op] else page_content (pages ! k))"
proof -
  have "nat (p - 1) < length pages" using assms(1) by (auto simp: has_page_def)
  moreover have "nat (p - 1) = k \<longleftrightarrow> p = int k + 1"
    using assms(1) by (auto simp: has_page_def)
  ultimately show "page_height (draw_on pages (p - 1) op ! k) = page_height (pages ! k)"
    and "page_content (draw_on pages (p - 1) op ! k) =
           (if p = int k + 1 then page_content (pages ! k) @ [op] else page_content (pages ! k))"
    using assms(2) by (auto simp: draw_on_def nth_list_update)
qed

lemma addSignatures_pages:
  assumes "addSignatures L ss pages = Inr pages'" and "k < length pages"
  shows "length pages' = length pages
       \<and> page_height (pages' ! k) = page_height (pages ! k)
       \<and> page_content (pages' ! k) = page_content (pages ! k) @
           map (\<lambda>s. DrawImage (the (decodeImage L (sig_dataUrl s))) (sig_x s)
                      (page_height (pages ! k) - sig_y s - sig_height s)
                      (sig_width s) (sig_height s))
             (filter (\<lambda>s. sig_page s = int k + 1) ss)"
  using assms
proof (induction ss arbitrary: pages)
  case Nil
  then show ?case by simp
next
  case (Cons s ss)
  show ?case
  proof (cases "has_page (length pages) (sig_page s)")
    case False
    then have "page_at pages (sig_page s - 1) = None" by (simp add: page_at_None)
    moreover have "sig_page s \<noteq> int k + 1"
      using False Cons.prems(2) by (auto simp: has_page_def)
    ultimately show ?thesis using Cons by simp
  next
    case True
    then have pg: "page_at pages (sig_page s - 1) = Some (pages ! nat (sig_page s - 1))"
      by (simp add: page_at_Some)
    from Cons.prems(1) pg obtain img where
      img: "decodeImage L (sig_dataUrl s) = Some img"
      and rest: "addSignatures L ss
         (draw_on pages (sig_page s - 1)
            (DrawImage img (sig_x s)
               (page_height (pages ! nat (sig_page s - 1)) - sig_y s - sig_height s)
               (sig_width s) (sig_height s))) = Inr pages'"
      by (auto simp: decodeImage_def split: option.splits)
    have k': "k < length (draw_on pages (sig_page s - 1)
            (DrawImage img (sig_x s)
               (page_height (pages ! nat (sig_page s - 1)) - sig_y s - sig_height s)
               (sig_width s) (sig_height s)))"
      using Cons.prems(2) by (simp add: length_draw_on)
    have "sig_page s = int k + 1 \<Longrightarrow> nat (sig_page s - 1) = k" by simp
    with Cons.IH [OF rest k'] show ?thesis
      using img by (auto simp: length_draw_on draw_on_nth [OF True Cons.prems(2)])
  qed
qed

lemma addTexts_pages:
  assumes "addTexts L ts pages = Inr pages'" and "k < length pages"
  shows "length pages' = length pages
       \<and> page_height (pages' ! k) = page_height (pages ! k)
       \<and> page_content (pages' ! k) = page_content (pages ! k) @
           map (\<lambda>t. DrawText (txt_text t) (txt_x t)
                      (page_height (pages ! k) - txt_y t - txt_fontSize t)
                      (txt_fontSize t) (0.1, 0.1, 0.18))
             (filter (\<lambda>t. trim (txt_text t) \<noteq> [] \<and> txt_page t = int k + 1) ts)"
  using assms
proof (induction ts arbitrary: pages)
  case Nil
  then show ?case by simp
next
  case (Cons t ts)
  show ?case
  proof (cases "trim (txt_text t) \<noteq> [] \<and> has_page (length pages) (txt_page t)")
    case False
    then have "trim (txt_text t) = [] \<or> page_at pages (txt_page t - 1) = None"
      by (auto simp: page_at_None)
    then have rest: "addTexts L ts pages = Inr pages'"
      using Cons.prems(1) by (auto split: if_splits)
    have "trim (txt_text t) \<noteq> [] \<Longrightarrow> txt_page t \<noteq> int k + 1"
      using False Cons.prems(2) by (auto simp: has_page_def)
    with Cons.IH [OF rest Cons.prems(2)] show ?thesis by auto
  next
    case True
    then have hp: "has_page (length pages) (txt_page t)" by simp
    then have pg: "page_at pages (txt_page t - 1) = Some (pages ! nat (txt_page t - 1))"
      by (simp add: page_at_Some)
    from Cons.prems(1) True pg have
      rest: "addTexts L ts
         (draw_on pages (txt_page t - 1)
            (DrawText (txt_text t) (txt_x t)
               (page_height (pages ! nat (txt_page t - 1)) - txt_y t - txt_fontSize t)
               (txt_fontSize t) (0.1, 0.1, 0.18))) = Inr pages'"
      by (auto split: if_splits)
    have k': "k < length (draw_on pages (txt_page t - 1)
            (DrawText (txt_text t) (txt_x t)
               (page_height (pages ! nat (txt_page t - 1)) - txt_y t - txt_fontSize t)
               (txt_fontSize t) (0.1, 0.1, 0.18)))"
      using Cons.prems(2) by (simp add: length_draw_on)
    have "txt_page t = int k + 1 \<Longrightarrow> nat (txt_page t - 1) = k" by simp
    with Cons.IH [OF rest k'] show ?thesis
      using True by (auto simp: length_draw_on draw_on_nth [OF hp Cons.prems(2)])
  qed
qed

lemma addHighlights_pages:
  assumes "k < length pages"
  shows "length (addHighlights hs pages) = length pages
       \<and> page_height (addHighlights hs pages ! k) = page_height (pages ! k)
       \<and> page_content (addHighlights hs pages ! k) = page_content (pages ! k) @
           map (\<lambda>h. DrawRectangle (hl_x h)
                      (page_height (pages ! k) - hl_y h - hl_height h)
                      (hl_width h) (hl_height h) (0.98, 0.8, 0.08) 0.4)
             (filter (\<lambda>h. hl_page h = int k + 1) hs)"
  using assms
proof (induction hs arbitrary: pages)
  case Nil
  then show ?case by simp
next
  case (Cons h hs)
  show ?case
  proof (cases "has_page (length pages) (hl_page h)")
    case False
    then have "page_at pages (hl_page h - 1) = None" by (simp add: page_at_None)
    moreover have "hl_page h \<noteq> int k + 1"
      using False Cons.prems by (auto simp: has_page_def)
    ultimately show ?thesis using Cons by simp
  next
    case True
    then have pg: "page_at pages (hl_page h - 1) = Some (pages ! nat (hl_page h - 1))"
      by (simp add: page_at_Some)
    have k': "k < length (draw_on pages (hl_page h - 1)
            (DrawRectangle (hl_x h)
               (page_height (pages ! nat (hl_page h - 1)) - hl_y h - hl_height h)
               (hl_width h) (hl_height h) (0.98, 0.8, 0.08) 0.4))"
      using Cons.prems by (simp add: length_draw_on)
    have "hl_page h = int k + 1 \<Longrightarrow> nat (hl_page h - 1) = k" by simp
    with Cons.IH [OF k'] show ?thesis
      using pg by (auto simp: length_draw_on draw_on_nth [OF True Cons.prems])
  qed
qed

lemma bakePages_content:
  assumes "lib_load L (file_bytes f) = Some pages"
    and "bakePages L f a = Inr pages'"
    and "k < length pages"
    and "pageHeight = page_height (pages ! k)"
  shows "length pages' = length pages
       \<and> page_content (pages' ! k) = page_content (pages ! k)
           @ map (\<lambda>s. DrawImage (the (decodeImage L (sig_dataUrl s))) (sig_x s)
                        (pageHeight - sig_y s - sig_height s) (sig_width s) (sig_height s))
               (filter (\<lambda>s. sig_page s = int k + 1) (signatures a))
           @ map (\<lambda>t. DrawText (txt_text t) (txt_x t)
                        (pageHeight - txt_y t - txt_fontSize t) (txt_fontSize t)
                        (0.1, 0.1, 0.18))
               (filter (\<lambda>t. trim (txt_text t) \<noteq> [] \<and> txt_page t = int k + 1) (texts a))
           @ map (\<lambda>h. DrawRectangle (hl_x h)
                        (pageHeight - hl_y h - hl_height h) (hl_width h) (hl_height h)
                        (0.98, 0.8, 0.08) 0.4)
               (filter (\<lambda>h. hl_page h = int k + 1) (highlights a))"
proof -
  from assms(1,2) obtain p1 p2 where
    s: "addSignatures L (signatures a) pages = Inr p1"
    and t: "addTexts L (texts a) p1 = Inr p2"
    and r: "pages' = addHighlights (highlights a) p2"
    by (auto simp: bakePages_def split: sum.splits)
  note S = addSignatures_pages [OF s assms(3)]
  then have k1: "k < length p1" using assms(3) by simp
  note T = addTexts_pages [OF t k1]
  then have k2: "k < length p2" using k1 by simp
  note H = addHighlights_pages [OF k2, of "highlights a"]
  show ?thesis
    using S T H by (simp add: r assms(4))
qed

text \<open>
  Claim C1. When the export gets as far as the drawn pages, the page with 0-based index
  \<open>k\<close> and height \<open>pageHeight\<close> has received, after what it held: for each signature of
  page \<open>k + 1\<close>, in store order, its image at \<open>x = sig_x\<close> and
  \<open>y = pageHeight - sig_y - sig_height\<close> with its width and height; then for each text
  of that page that is not blank, its content at \<open>x = txt_x\<close> and
  \<open>y = pageHeight - txt_y - txt_fontSize\<close>; then for each highlight of that page a
  rectangle at \<open>x = hl_x\<close> and \<open>y = pageHeight - hl_y - hl_height\<close>. Nothing else is drawn.
\<close>

theorem baked_coordinates:
  assumes "lib_load L (file_bytes f) = Some pages"
    and "bakePages L f a = Inr pages'"
    and "k < length pages"
    and "pageHeight = page_height (pages ! k)"
  shows "length pages' = length pages
       \<and> page_content (pages' ! k) = page_content (pages ! k)
           @ map (\<lambda>s. DrawImage (the (decodeImage L (sig_dataUrl s))) (sig_x s)
                        (pageHeight - sig_y s - sig_height s) (sig_width s) (sig_height s))
               (filter (\<lambda>s. sig_page s = int k + 1) (signatures a))
           @ map (\<lambda>t. DrawText (txt_text t) (txt_x t)
                        (pageHeight - txt_y t - txt_fontSize t) (txt_fontSize t)
                        (0.1, 0.1, 0.18))
               (filter (\<lambda>t. trim (txt_text t) \<noteq> [] \<and> txt_page t = int k + 1) (texts a))
           @ map (\<lambda>h. DrawRectangle (hl_x h)
                        (pageHeight - hl_y h - hl_height h) (hl_width h) (hl_height h)
                        (0.98, 0.8, 0.08) 0.4)
               (filter (\<lambda>h. hl_page h = int k + 1) (highlights a))"
  using assms by (rule bakePages_content)

theorem baked_coordinates_witness:
  "\<exists>pages'. bakePages sample_lib (inputFile sample_state) (annotations sample_state) = Inr pages'
     \<and> page_content (pages' ! 0) =
         [DrawImage [137, 80, 78, 71] 100 632 150 60,
          DrawText [65, 112, 112, 114, 111, 118, 101, 100] 72 476 16 (0.1, 0.1, 0.18)]
     \<and> page_content (pages' ! 1) = [DrawRectangle 50 374 200 18 (0.98, 0.8, 0.08) 0.4]"
proof -
  have l: "lib_load sample_lib (file_bytes (inputFile sample_state)) = Some sample_pages"
    by (simp add: sample_lib_def sample_state_def)
  obtain pages' where
    b: "bakePages sample_lib (inputFile sample_state) (annotations sample_state) = Inr pages'"
    by (simp add: bake_defs sample_defs)
  have d: "decodeImage sample_lib (sig_dataUrl sample_signature) = Some [137, 80, 78, 71]"
    by (simp add: decodeImage_def sample_lib_def sample_signature_def)
  have k: "0 < length sample_pages" "1 < length sample_pages"
    and h: "792 = page_height (sample_pages ! 0)" "792 = page_height (sample_pages ! 1)"
    and c: "page_content (sample_pages ! 0) = []" "page_content (sample_pages ! 1) = []"
    by (simp_all add: sample_pages_def)
  have f: "filter (\<lambda>s. sig_page s = int 0 + 1) (signatures (annotations sample_state)) = [sample_signature]"
    "filter (\<lambda>s. sig_page s = int 1 + 1) (signatures (annotations sample_state)) = []"
    "filter (\<lambda>t. trim (txt_text t) \<noteq> [] \<and> txt_page t = int 0 + 1) (texts (annotations sample_state)) = [sample_text]"
    "filter (\<lambda>t. trim (txt_text t) \<noteq> [] \<and> txt_page t = int 1 + 1) (texts (annotations sample_state)) = []"
    "filter (\<lambda>h. hl_page h = int 0 + 1) (highlights (annotations sample_state)) = []"
    "filter (\<lambda>h. hl_page h = int 1 + 1) (highlights (annotations sample_state)) = [sample_highlight]"
    by (simp_all add: sample_defs trim_def isWhiteSpace_def)
  have "page_content (pages' ! 0) =
         [DrawImage [137, 80, 78, 71] 100 632 150 60,
          DrawText [65, 112, 112, 114, 111, 118, 101, 100] 72 476 16 (0.1, 0.1, 0.18)]"
    using baked_coordinates [OF l b k(1) h(1)]
    unfolding f c by (simp add: d) (simp add: sample_signature_def sample_text_def)
  moreover have "page_content (pages' ! 1) = [DrawRectangle 50 374 200 18 (0.98, 0.8, 0.08) 0.4]"
    using baked_coordinates [OF l b k(2) h(2)]
    unfolding f c by (simp add: sample_highlight_def)
  ultimately show ?thesis using b by simp
qed

text \<open>
  The instance of the specification, for any page height \<open>H\<close>: the signature at
  \<open>(100, 100)\<close> of size 150 by 60 is drawn at \<open>y = H - 160\<close>.
\<close>

lemma baked_signature_example:
  assumes "lib_fetch L url = Some bytes" and "lib_embedPng L bytes = Some img"
  shows "addSignatures L
           [\<lparr>sig_id = i, sig_x = 100, sig_y = 100, sig_width = 150, sig_height = 60,
             sig_dataUrl = url, sig_page = 1\<rparr>]
           [\<lparr>page_width = W, page_height = H, page_content = []\<rparr>] =
         Inr [\<lparr>page_width = W, page_height = H,
               page_content = [DrawImage img 100 (H - 160) 150 60]\<rparr>]"
  using assms by (simp add: page_at_def draw_on_def)

section \<open>Annotations the export skips\<close>

lemma addSignatures_skip:
  "addSignatures L ss pages =
     addSignatures L (filter (\<lambda>s. has_page (length pages) (sig_page s)) ss) pages"
proof (induction ss arbitrary: pages)
  case Nil
  show ?case by simp
next
  case (Cons s ss)
  show ?case
  proof (cases "has_page (length pages) (sig_page s)")
    case False
    then have "page_at pages (sig_page s - 1) = None" by (simp add: page_at_None)
    then show ?thesis using False Cons [of pages] by simp
  next
    case True
    then have "page_at pages (sig_page s - 1) = Some (pages ! nat (sig_page s - 1))"
      by (simp add: page_at_Some)
    then show ?thesis
      using True Cons by (simp add: length_draw_on split: option.split)
  qed
qed

lemma addTexts_skip:
  "addTexts L ts pages =
     addTexts L
       (filter (\<lambda>t. trim (txt_text t) \<noteq> [] \<and> has_page (length pages) (txt_page t)) ts)
       pages"
proof (induction ts arbitrary: pages)
  case Nil
  show ?case by simp
next
  case (Cons t ts)
  show ?case
  proof (cases "has_page (length pages) (txt_page t)")
    case False
    then have "page_at pages (txt_page t - 1) = None" by (simp add: page_at_None)
    then show ?thesis using False Cons [of pages] by simp
  next
    case True
    then have "page_at pages (txt_page t - 1) = Some (pages ! nat (txt_page t - 1))"
      by (simp add: page_at_Some)
    then show ?thesis
      using True Cons by (simp add: length_draw_on)
  qed
qed

lemma addHighlights_skip:
  "addHighlights hs pages =
     addHighlights (filter (\<lambda>h. has_page (length pages) (hl_page h)) hs) pages"
proof (induction hs arbitrary: pages)
  case Nil
  show ?case by simp
next
  case (Cons h hs)
  show ?case
  proof (cases "has_page (length pages) (hl_page h)")
    case False
    then have "page_at pages (hl_page h - 1) = None" by (simp add: page_at_None)
    then show ?thesis using False Cons [of pages] by simp
  next
    case True
    then have "page_at pages (hl_page h - 1) = Some (pages ! nat (hl_page h - 1))"
      by (simp add: page_at_Some)
    then show ?thesis
      using True Cons by (simp add: length_draw_on)
  qed
qed

lemma addSignatures_length:
  "addSignatures L ss pages = Inr pages' \<Longrightarrow> length pages' = length pages"
proof (induction ss arbitrary: pages)
  case Nil
  then show ?case by simp
next
  case (Cons s ss)
  then show ?case
    by (fastforce simp: length_draw_on split: option.splits)
qed

lemma addSignatures_succeeds:
  assumes "\<forall>s \<in> set ss. has_page (length pages) (sig_page s) \<longrightarrow>
             decodeImage L (sig_dataUrl s) \<noteq> None"
  shows "\<exists>pages'. addSignatures L ss pages = Inr pages'"
  using assms
proof (induction ss arbitrary: pages)
  case Nil
  show ?case by simp
next
  case (Cons s ss)
  show ?case
  proof (cases "has_page (length pages) (sig_page s)")
    case False
    then have "page_at pages (sig_page s - 1) = None" by (simp add: page_at_None)
    then show ?thesis using Cons by simp
  next
    case True
    then have pg: "page_at pages (sig_page s - 1) = Some (pages ! nat (sig_page s - 1))"
      by (simp add: page_at_Some)
    from True Cons.prems obtain bytes img where
      "lib_fetch L (sig_dataUrl s) = Some bytes" "lib_embedPng L bytes = Some img"
      by (auto simp: decodeImage_def split: option.splits)
    then show ?thesis
      using pg Cons.IH Cons.prems by (simp add: length_draw_on)
  qed
qed

lemma addTexts_length:
  "addTexts L ts pages = Inr pages' \<Longrightarrow> length pages' = length pages"
proof (induction ts arbitrary: pages)
  case Nil
  then show ?case by simp
next
  case (Cons t ts)
  then show ?case
    by (fastforce simp: length_draw_on split: option.splits if_splits)
qed

lemma addTexts_succeeds:
  assumes "\<forall>t \<in> set ts. trim (txt_text t) \<noteq> [] \<and> has_page (length pages) (txt_page t) \<longrightarrow>
             lib_drawText L (txt_text t)"
  shows "\<exists>pages'. addTexts L ts pages = Inr pages'"
  using assms
proof (induction ts arbitrary: pages)
  case Nil
  show ?case by simp
next
  case (Cons t ts)
  show ?case
  proof (cases "has_page (length pages) (txt_page t)")
    case False
    then have "page_at pages (txt_page t - 1) = None" by (simp add: page_at_None)
    then show ?thesis using Cons by simp
  next
    case True
    then have pg: "page_at pages (txt_page t - 1) = Some (pages ! nat (txt_page t - 1))"
      by (simp add: page_at_Some)
    show ?thesis
      using True pg Cons.IH Cons.prems by (simp add: length_draw_on)
  qed
qed

lemma bakePages_skip:
  assumes "lib_load L (file_bytes f) = Some pages"
  shows "bakePages L f a = bakePages L f (bakeable (length pages) a)"
proof (cases "addSignatures L (signatures a) pages")
  case (Inl err)
  then show ?thesis
    using assms addSignatures_skip [of L "signatures a" pages]
    by (simp add: bakePages_def bakeable_def)
next
  case (Inr p1)
  then have n: "length p1 = length pages" by (rule addSignatures_length)
  show ?thesis
  proof (cases "addTexts L (texts a) p1")
    case (Inl err)
    then show ?thesis
      using assms \<open>addSignatures L (signatures a) pages = Inr p1\<close>
        addSignatures_skip [of L "signatures a" pages] addTexts_skip [of L "texts a" p1]
      by (simp add: bakePages_def bakeable_def n)
  next
    case (Inr p2)
    then have m: "length p2 = length pages" using n by (simp add: addTexts_length)
    show ?thesis
      using assms Inr \<open>addSignatures L (signatures a) pages = Inr p1\<close>
        addSignatures_skip [of L "signatures a" pages] addTexts_skip [of L "texts a" p1]
        addHighlights_skip [of "highlights a" p2]
      by (simp add: bakePages_def bakeable_def n m)
  qed
qed

lemma addHighlights_length: "length (addHighlights hs pages) = length pages"
  by (induction hs arbitrary: pages)
    (auto simp: length_draw_on split: option.splits)

lemma addSignatures_decoded:
  assumes "addSignatures L ss pages = Inr pages'"
  shows "\<forall>s \<in> set ss. has_page (length pages) (sig_page s) \<longrightarrow>
           decodeImage L (sig_dataUrl s) \<noteq> None"
  using assms
proof (induction ss arbitrary: pages)
  case Nil
  show ?case by simp
next
  case (Cons s ss)
  show ?case
  proof (cases "has_page (length pages) (sig_page s)")
    case False
    then have "page_at pages (sig_page s - 1) = None" by (simp add: page_at_None)
    then show ?thesis using False Cons by simp
  next
    case True
    then have pg: "page_at pages (sig_page s - 1) = Some (pages ! nat (sig_page s - 1))"
      by (simp add: page_at_Some)
    from Cons.prems pg obtain bytes img where
      dec: "lib_fetch L (sig_dataUrl s) = Some bytes" "lib_embedPng L bytes = Some img"
      by (auto split: option.splits)
    then have "decodeImage L (sig_dataUrl s) \<noteq> None"
      by (simp add: decodeImage_def)
    moreover have "\<forall>s' \<in> set ss. has_page (length pages) (sig_page s') \<longrightarrow>
        decodeImage L (sig_dataUrl s') \<noteq> None"
      using Cons.IH [of "draw_on pages (sig_page s - 1)
          (DrawImage img (sig_x s) (page_height (pages ! nat (sig_page s - 1)) - sig_y s - sig_height s)
             (sig_width s) (sig_height s))"] Cons.prems pg dec
      by (simp add: length_draw_on)
    ultimately show ?thesis by simp
  qed
qed

lemma addTexts_encoded:
  assumes "addTexts L ts pages = Inr pages'"
  shows "\<forall>t \<in> set ts. trim (txt_text t) \<noteq> [] \<and> has_page (length pages) (txt_page t) \<longrightarrow>
           lib_drawText L (txt_text t)"
  using assms
proof (induction ts arbitrary: pages)
  case Nil
  show ?case by simp
next
  case (Cons t ts)
  show ?case
  proof (cases "trim (txt_text t) \<noteq> [] \<and> has_page (length pages) (txt_page t)")
    case False
    then have "trim (txt_text t) = [] \<or> page_at pages (txt_page t - 1) = None"
      by (auto simp: page_at_None)
    then have "addTexts L ts pages = Inr pages'"
      using Cons.prems by (auto split: if_splits)
    from Cons.IH [OF this] show ?thesis using False by auto
  next
    case True
    then have pg: "page_at pages (txt_page t - 1) = Some (pages ! nat (txt_page t - 1))"
      by (simp add: page_at_Some)
    from Cons.prems pg True have enc: "lib_drawText L (txt_text t)"
      by (auto split: if_splits)
    moreover have "\<forall>t' \<in> set ts.
        trim (txt_text t') \<noteq> [] \<and> has_page (length pages) (txt_page t') \<longrightarrow>
          lib_drawText L (txt_text t')"
      using Cons.IH [of "draw_on pages (txt_page t - 1)
          (DrawText (txt_text t) (txt_x t)
             (page_height (pages ! nat (txt_page t - 1)) - txt_y t - txt_fontSize t)
             (txt_fontSize t) (0.1, 0.1, 0.18))"] Cons.prems pg True enc
      by (simp add: length_draw_on)
    ultimately show ?thesis by simp
  qed
qed

lemma bake_needs:
  assumes "lib_load L (file_bytes f) = Some pages"
    and "bake L f (bakeable (length pages) a) = Inr d"
  shows "\<forall>s \<in> set (signatures (bakeable (length pages) a)). decodeImage L (sig_dataUrl s) \<noteq> None"
    and "\<forall>t \<in> set (texts (bakeable (length pages) a)). lib_drawText L (txt_text t)"
    and "\<forall>ps. bakePages L f (bakeable (length pages) a) = Inr ps \<longrightarrow> lib_save L ps \<noteq> None"
proof -
  from assms(2) obtain ps where
    ps: "bakePages L f (bakeable (length pages) a) = Inr ps" and sv: "lib_save L ps \<noteq> None"
    by (auto simp: bake_def split: sum.splits option.splits)
  from ps assms(1) obtain p1 p2 where
    p1: "addSignatures L (signatures (bakeable (length pages) a)) pages = Inr p1"
    and p2: "addTexts L (texts (bakeable (length pages) a)) p1 = Inr p2"
    by (auto simp: bakePages_def split: sum.splits)
  have n: "length p1 = length pages" using p1 by (rule addSignatures_length)
  show "\<forall>s \<in> set (signatures (bakeable (length pages) a)). decodeImage L (sig_dataUrl s) \<noteq> None"
    using addSignatures_decoded [OF p1] by (simp add: bakeable_def)
  show "\<forall>t \<in> set (texts (bakeable (length pages) a)). lib_drawText L (txt_text t)"
    using addTexts_encoded [OF p2] by (simp add: bakeable_def n)
  show "\<forall>ps. bakePages L f (bakeable (length pages) a) = Inr ps \<longrightarrow> lib_save L ps \<noteq> None"
    using ps sv by simp
qed

text \<open>
  Claim C8. Let the document load with its pages, and let \<open>remaining\<close> be the store
  without the annotations whose page number has no page and without the texts that are
  blank after trimming. The export draws the same pages, hands the same file to the
  user and shows the same toast as it does for \<open>remaining\<close> alone: the skipped
  annotations raise nothing and are reported nowhere, not even a signature whose image
  would not decode or a text that the font cannot encode. If the image of every
  remaining signature decodes, the font encodes every remaining text and the drawn
  document serialises, the export succeeds: the toast is the one of success, the file
  delivered is the serialisation of the drawn pages, and each page has received
  exactly the draw calls of the remaining annotations of that page, in the order of
  the three loops. If one of the three conditions fails, the toast is the one of the
  error and no file is delivered.
\<close>

theorem export_skips:
  assumes "lib_load L (file_bytes (inputFile st)) = Some pages"
    and "remaining = bakeable (length pages) (annotations st)"
  shows "bakePages L (inputFile st) (annotations st) = bakePages L (inputFile st) remaining
       \<and> snd (handleDownload L st) = snd (handleDownload L (st\<lparr>annotations := remaining\<rparr>))
       \<and> toasts (fst (handleDownload L st)) =
           toasts (fst (handleDownload L (st\<lparr>annotations := remaining\<rparr>)))
       \<and> ((\<forall>s \<in> set (signatures remaining). decodeImage L (sig_dataUrl s) \<noteq> None)
           \<and> (\<forall>t \<in> set (texts remaining). lib_drawText L (txt_text t))
           \<and> (\<forall>ps. bakePages L (inputFile st) remaining = Inr ps \<longrightarrow> lib_save L ps \<noteq> None)
           \<longrightarrow> toasts (fst (handleDownload L st)) = toasts st @ [''PDF downloaded'']
               \<and> (\<exists>drawn pdfBytes.
                     bakePages L (inputFile st) (annotations st) = Inr drawn
                     \<and> lib_save L drawn = Some pdfBytes
                     \<and> snd (handleDownload L st) =
                         Some \<lparr>dl_name = ''edited_'' @ file_name (inputFile st),
                               dl_bytes = pdfBytes\<rparr>
                     \<and> length drawn = length pages
                     \<and> (\<forall>k < length pages.
                           page_content (drawn ! k) = page_content (pages ! k)
                             @ map (\<lambda>s. DrawImage (the (decodeImage L (sig_dataUrl s))) (sig_x s)
                                          (page_height (pages ! k) - sig_y s - sig_height s)
                                          (sig_width s) (sig_height s))
                                 (filter (\<lambda>s. sig_page s = int k + 1) (signatures remaining))
                             @ map (\<lambda>t. DrawText (txt_text t) (txt_x t)
                                          (page_height (pages ! k) - txt_y t - txt_fontSize t)
                                          (txt_fontSize t) (0.1, 0.1, 0.18))
                                 (filter (\<lambda>t. txt_page t = int k + 1) (texts remaining))
                             @ map (\<lambda>h. DrawRectangle (hl_x h)
                                          (page_height (pages ! k) - hl_y h - hl_height h)
                                          (hl_width h) (hl_height h) (0.98, 0.8, 0.08) 0.4)
                                 (filter (\<lambda>h. hl_page h = int k + 1) (highlights remaining)))))
       \<and> (\<not> ((\<forall>s \<in> set (signatures remaining). decodeImage L (sig_dataUrl s) \<noteq> None)
              \<and> (\<forall>t \<in> set (texts remaining). lib_drawText L (txt_text t))
              \<and> (\<forall>ps. bakePages L (inputFile st) remaining = Inr ps \<longrightarrow> lib_save L ps \<noteq> None))
           \<longrightarrow> toasts (fst (handleDownload L st)) = toasts st @ [''Error'']
               \<and> snd (handleDownload L st) = None)"
proof -
  have eq: "bakePages L (inputFile st) (annotations st) = bakePages L (inputFile st) remaining"
    unfolding assms(2) by (rule bakePages_skip [OF assms(1)])
  then have beq: "bake L (inputFile st) (annotations st) = bake L (inputFile st) remaining"
    by (simp add: bake_def)
  have ok: "toasts (fst (handleDownload L st)) = toasts st @ [''PDF downloaded'']
      \<and> (\<exists>drawn pdfBytes.
            bakePages L (inputFile st) (annotations st) = Inr drawn
            \<and> lib_save L drawn = Some pdfBytes
            \<and> snd (handleDownload L st) =
                Some \<lparr>dl_name = ''edited_'' @ file_name (inputFile st), dl_bytes = pdfBytes\<rparr>
            \<and> length drawn = length pages
            \<and> (\<forall>k < length pages.
                  page_content (drawn ! k) = page_content (pages ! k)
                    @ map (\<lambda>s. DrawImage (the (decodeImage L (sig_dataUrl s))) (sig_x s)
                                 (page_height (pages ! k) - sig_y s - sig_height s)
                                 (sig_width s) (sig_height s))
                        (filter (\<lambda>s. sig_page s = int k + 1) (signatures remaining))
                    @ map (\<lambda>t. DrawText (txt_text t) (txt_x t)
                                 (page_height (pages ! k) - txt_y t - txt_fontSize t)
                                 (txt_fontSize t) (0.1, 0.1, 0.18))
                        (filter (\<lambda>t. txt_page t = int k + 1) (texts remaining))
                    @ map (\<lambda>h. DrawRectangle (hl_x h)
                                 (page_height (pages ! k) - hl_y h - hl_height h)
                                 (hl_width h) (hl_height h) (0.98, 0.8, 0.08) 0.4)
                        (filter (\<lambda>h. hl_page h = int k + 1) (highlights remaining))))"
    if dec: "\<forall>s \<in> set (signatures remaining). decodeImage L (sig_dataUrl s) \<noteq> None"
      and enc: "\<forall>t \<in> set (texts remaining). lib_drawText L (txt_text t)"
      and sav: "\<forall>ps. bakePages L (inputFile st) remaining = Inr ps \<longrightarrow> lib_save L ps \<noteq> None"
  proof -
    from dec have "\<forall>s \<in> set (signatures remaining).
        has_page (length pages) (sig_page s) \<longrightarrow> decodeImage L (sig_dataUrl s) \<noteq> None"
      by simp
    from addSignatures_succeeds [OF this] obtain p1 where
      p1: "addSignatures L (signatures remaining) pages = Inr p1" by blast
    from enc have "\<forall>t \<in> set (texts remaining).
        trim (txt_text t) \<noteq> [] \<and> has_page (length p1) (txt_page t) \<longrightarrow>
          lib_drawText L (txt_text t)"
      by simp
    from addTexts_succeeds [OF this] obtain p2 where
      p2: "addTexts L (texts remaining) p1 = Inr p2" by blast
    from p1 p2 obtain drawn where drawn: "bakePages L (inputFile st) remaining = Inr drawn"
      using assms(1) by (simp add: bakePages_def)
    with sav obtain pdfBytes where bytes: "lib_save L drawn = Some pdfBytes" by auto
    have nonblank: "trim (txt_text t) \<noteq> []" if "t \<in> set (texts remaining)" for t
      using that by (simp add: assms(2) bakeable_def)
    have tf: "filter (\<lambda>t. trim (txt_text t) \<noteq> [] \<and> txt_page t = int k + 1) (texts remaining) =
        filter (\<lambda>t. txt_page t = int k + 1) (texts remaining)" for k
      by (rule filter_cong) (auto simp: nonblank)
    have content: "length drawn = length pages
       \<and> page_content (drawn ! k) = page_content (pages ! k)
           @ map (\<lambda>s. DrawImage (the (decodeImage L (sig_dataUrl s))) (sig_x s)
                        (page_height (pages ! k) - sig_y s - sig_height s)
                        (sig_width s) (sig_height s))
               (filter (\<lambda>s. sig_page s = int k + 1) (signatures remaining))
           @ map (\<lambda>t. DrawText (txt_text t) (txt_x t)
                        (page_height (pages ! k) - txt_y t - txt_fontSize t)
                        (txt_fontSize t) (0.1, 0.1, 0.18))
               (filter (\<lambda>t. txt_page t = int k + 1) (texts remaining))
           @ map (\<lambda>h. DrawRectangle (hl_x h)
                        (page_height (pages ! k) - hl_y h - hl_height h)
                        (hl_width h) (hl_height h) (0.98, 0.8, 0.08) 0.4)
               (filter (\<lambda>h. hl_page h = int k + 1) (highlights remaining))"
      if "k < length pages" for k
      using bakePages_content [OF assms(1) drawn that refl] by (simp only: tf)
    have len: "length drawn = length pages"
      using drawn assms(1) addSignatures_length [OF p1] addTexts_length [OF p2]
      by (auto simp: bakePages_def p1 p2 addHighlights_length)
    have toast: "toasts (fst (handleDownload L st)) = toasts st @ [''PDF downloaded'']"
      and delivered: "snd (handleDownload L st) =
        Some \<lparr>dl_name = ''edited_'' @ file_name (inputFile st), dl_bytes = pdfBytes\<rparr>"
      using drawn bytes beq
      by (simp_all add: handleDownload_def downloadFinish_def downloadStart_def bake_def)
    from drawn eq have d: "bakePages L (inputFile st) (annotations st) = Inr drawn" by simp
    from toast d bytes delivered len content show ?thesis by blast
  qed
  have ko: "toasts (fst (handleDownload L st)) = toasts st @ [''Error'']
      \<and> snd (handleDownload L st) = None"
    if bad: "\<not> ((\<forall>s \<in> set (signatures remaining). decodeImage L (sig_dataUrl s) \<noteq> None)
              \<and> (\<forall>t \<in> set (texts remaining). lib_drawText L (txt_text t))
              \<and> (\<forall>ps. bakePages L (inputFile st) remaining = Inr ps \<longrightarrow> lib_save L ps \<noteq> None))"
  proof (cases "bake L (inputFile st) remaining")
    case (Inl err)
    then show ?thesis
      using beq by (simp add: handleDownload_def downloadFinish_def downloadStart_def)
  next
    case (Inr d)
    then have "bake L (inputFile st) (bakeable (length pages) (annotations st)) = Inr d"
      by (simp add: assms(2))
    from bake_needs [OF assms(1) this] bad show ?thesis
      unfolding assms(2) by blast
  qed
  have same: "snd (handleDownload L st) = snd (handleDownload L (st\<lparr>annotations := remaining\<rparr>))"
    "toasts (fst (handleDownload L st)) =
       toasts (fst (handleDownload L (st\<lparr>annotations := remaining\<rparr>)))"
    using beq
    by (simp_all add: handleDownload_def downloadFinish_def downloadStart_def split: sum.split)
  from eq same ok ko show ?thesis by blast
qed

theorem export_skips_witness:
  "bakeable 2 (annotations sample_stray_state) = annotations sample_state
   \<and> snd (handleDownload sample_lib sample_stray_state) =
       Some \<lparr>dl_name = ''edited_form.pdf'', dl_bytes = [2, 1]\<rparr>
   \<and> toasts (fst (handleDownload sample_lib sample_stray_state)) = [''PDF downloaded'']
   \<and> (\<exists>drawn.
         bakePages sample_lib (inputFile sample_stray_state) (annotations sample_stray_state) =
           Inr drawn
         \<and> page_content (drawn ! 0) =
             [DrawImage [137, 80, 78, 71] 100 632 150 60,
              DrawText [65, 112, 112, 114, 111, 118, 101, 100] 72 476 16 (0.1, 0.1, 0.18)]
         \<and> page_content (drawn ! 1) = [DrawRectangle 50 374 200 18 (0.98, 0.8, 0.08) 0.4])
   \<and> toasts (fst (handleDownload sample_lib sample_unencodable_state)) = [''Error'']
   \<and> snd (handleDownload sample_lib sample_unencodable_state) = None"
proof -
  have l: "lib_load sample_lib (file_bytes (inputFile sample_stray_state)) = Some sample_pages"
    by (simp add: sample_lib_def sample_stray_state_def sample_state_def)
  have n: "length sample_pages = 2"
    by (simp add: sample_pages_def)
  have r: "bakeable 2 (annotations sample_stray_state) = annotations sample_state"
    by (simp add: bakeable_def has_page_def sample_stray_state_def
        sample_defs trim_def isWhiteSpace_def)
  have r': "annotations sample_state =
      bakeable (length sample_pages) (annotations sample_stray_state)"
    by (simp add: n r)
  have t: "toasts sample_stray_state = []"
    and nm: "file_name (inputFile sample_stray_state) = ''form.pdf''"
    by (simp_all add: sample_stray_state_def sample_state_def)
  have d: "\<forall>s \<in> set (signatures (annotations sample_state)).
      decodeImage sample_lib (sig_dataUrl s) \<noteq> None"
    by (simp add: decodeImage_def sample_lib_def sample_defs)
  have enc: "\<forall>t \<in> set (texts (annotations sample_state)). lib_drawText sample_lib (txt_text t)"
    by (simp add: sample_lib_def sample_defs)
  have sv: "\<forall>ps. bakePages sample_lib (inputFile sample_stray_state) (annotations sample_state) = Inr ps
      \<longrightarrow> lib_save sample_lib ps \<noteq> None"
    by (simp add: sample_lib_def)
  from export_skips [OF l r'] d enc sv obtain drawn pdfBytes where
    toast: "toasts (fst (handleDownload sample_lib sample_stray_state)) =
        toasts sample_stray_state @ [''PDF downloaded'']"
    and drawn: "bakePages sample_lib (inputFile sample_stray_state)
        (annotations sample_stray_state) = Inr drawn"
    and bytes: "lib_save sample_lib drawn = Some pdfBytes"
    and delivered: "snd (handleDownload sample_lib sample_stray_state) =
        Some \<lparr>dl_name = ''edited_'' @ file_name (inputFile sample_stray_state),
              dl_bytes = pdfBytes\<rparr>"
    and len: "length drawn = length sample_pages"
    and content: "\<forall>k < length sample_pages.
        page_content (drawn ! k) = page_content (sample_pages ! k)
          @ map (\<lambda>s. DrawImage (the (decodeImage sample_lib (sig_dataUrl s))) (sig_x s)
                       (page_height (sample_pages ! k) - sig_y s - sig_height s)
                       (sig_width s) (sig_height s))
              (filter (\<lambda>s. sig_page s = int k + 1) (signatures (annotations sample_state)))
          @ map (\<lambda>t. DrawText (txt_text t) (txt_x t)
                       (page_height (sample_pages ! k) - txt_y t - txt_fontSize t)
                       (txt_fontSize t) (0.1, 0.1, 0.18))
              (filter (\<lambda>t. txt_page t = int k + 1) (texts (annotations sample_state)))
          @ map (\<lambda>h. DrawRectangle (hl_x h)
                       (page_height (sample_pages ! k) - hl_y h - hl_height h)
                       (hl_width h) (hl_height h) (0.98, 0.8, 0.08) 0.4)
              (filter (\<lambda>h. hl_page h = int k + 1) (highlights (annotations sample_state)))"
    by blast
  have dec: "decodeImage sample_lib (sig_dataUrl sample_signature) = Some [137, 80, 78, 71]"
    by (simp add: decodeImage_def sample_lib_def sample_signature_def)
  have f: "filter (\<lambda>s. sig_page s = int 0 + 1) (signatures (annotations sample_state)) = [sample_signature]"
    "filter (\<lambda>s. sig_page s = int 1 + 1) (signatures (annotations sample_state)) = []"
    "filter (\<lambda>t. txt_page t = int 0 + 1) (texts (annotations sample_state)) = [sample_text]"
    "filter (\<lambda>t. txt_page t = int 1 + 1) (texts (annotations sample_state)) = []"
    "filter (\<lambda>h. hl_page h = int 0 + 1) (highlights (annotations sample_state)) = []"
    "filter (\<lambda>h. hl_page h = int 1 + 1) (highlights (annotations sample_state)) = [sample_highlight]"
    by (simp_all add: sample_defs)
  have c: "page_content (sample_pages ! 0) = []" "page_content (sample_pages ! 1) = []"
    "page_height (sample_pages ! 0) = 792" "page_height (sample_pages ! 1) = 792"
    by (simp_all add: sample_pages_def)
  have p0: "page_content (drawn ! 0) =
             [DrawImage [137, 80, 78, 71] 100 632 150 60,
              DrawText [65, 112, 112, 114, 111, 118, 101, 100] 72 476 16 (0.1, 0.1, 0.18)]"
    using content [rule_format, of 0] unfolding f c n
    by (simp add: dec) (simp add: sample_signature_def sample_text_def)
  have p1: "page_content (drawn ! 1) = [DrawRectangle 50 374 200 18 (0.98, 0.8, 0.08) 0.4]"
    using content [rule_format, of 1] unfolding f c n
    by (simp add: sample_highlight_def)
  from len n obtain pg0 pg1 where two: "drawn = [pg0, pg1]"
    by (auto simp: length_Suc_conv numeral_2_eq_2)
  have sv': "lib_save sample_lib drawn = Some (map (\<lambda>p. length (page_content p)) drawn)"
    by (simp add: sample_lib_def)
  have b: "pdfBytes = [2, 1]"
    using bytes p0 p1 unfolding two by (auto simp: sample_lib_def numeral_2_eq_2)
  have l2: "lib_load sample_lib (file_bytes (inputFile sample_unencodable_state)) =
      Some sample_pages"
    by (simp add: sample_lib_def sample_unencodable_state_def sample_state_def)
  have r2: "annotations sample_unencodable_state =
      bakeable (length sample_pages) (annotations sample_unencodable_state)"
    by (simp add: n bakeable_def has_page_def sample_unencodable_state_def sample_defs
        trim_def isWhiteSpace_def)
  have t2: "toasts sample_unencodable_state = []"
    by (simp add: sample_unencodable_state_def sample_state_def)
  have "\<not> (\<forall>t \<in> set (texts (annotations sample_unencodable_state)).
      lib_drawText sample_lib (txt_text t))"
    by (simp add: sample_lib_def sample_unencodable_state_def sample_defs)
  with export_skips [OF l2 r2] have
    failed: "toasts (fst (handleDownload sample_lib sample_unencodable_state)) =
        toasts sample_unencodable_state @ [''Error'']"
      "snd (handleDownload sample_lib sample_unencodable_state) = None"
    by blast+
  have "bakeable 2 (annotations sample_stray_state) = annotations sample_state
   \<and> snd (handleDownload sample_lib sample_stray_state) =
       Some \<lparr>dl_name = ''edited_form.pdf'', dl_bytes = [2, 1]\<rparr>
   \<and> toasts (fst (handleDownload sample_lib sample_stray_state)) = [''PDF downloaded'']
   \<and> (\<exists>drawn.
         bakePages sample_lib (inputFile sample_stray_state) (annotations sample_stray_state) =
           Inr drawn
         \<and> page_content (drawn ! 0) =
             [DrawImage [137, 80, 78, 71] 100 632 150 60,
              DrawText [65, 112, 112, 114, 111, 118, 101, 100] 72 476 16 (0.1, 0.1, 0.18)]
         \<and> page_content (drawn ! 1) = [DrawRectangle 50 374 200 18 (0.98, 0.8, 0.08) 0.4])"
    using r toast drawn delivered p0 p1 by (auto simp: t nm b)
  with failed show ?thesis by (simp add: t2)
qed

section \<open>The crop of a saved signature\<close>

lemma fold_rows: "fold f (concat xss) = fold (fold f) xss"
  by (induction xss) simp_all

lemma scanImage_positions:
  "scanImage im =
     fold (\<lambda>p. scanPixel im (snd p) (fst p)) (pixel_positions im)
       (img_width im, img_height im, 0, 0)"
proof -
  have row: "scanRow im = (\<lambda>y. fold (scanPixel im y) [0..<img_width im])"
    by (simp add: fun_eq_iff scanRow_def)
  show ?thesis
    by (simp add: scanImage_def pixel_positions_def fold_rows fold_map comp_def row)
qed

lemma scan_fold:
  "fold (\<lambda>p. scanPixel im (snd p) (fst p)) ps (a, b, c, d) =
     (fold min (map fst (filter (\<lambda>p. alpha_positive im (fst p) (snd p)) ps)) a,
      fold min (map snd (filter (\<lambda>p. alpha_positive im (fst p) (snd p)) ps)) b,
      fold max (map fst (filter (\<lambda>p. alpha_positive im (fst p) (snd p)) ps)) c,
      fold max (map snd (filter (\<lambda>p. alpha_positive im (fst p) (snd p)) ps)) d)"
  by (induction ps arbitrary: a b c d) (simp_all add: scanPixel_def min.commute max.commute)

lemma set_pixel_positions:
  "set (filter (\<lambda>p. alpha_positive im (fst p) (snd p)) (pixel_positions im)) =
     visible_pixels im"
  by (force simp: pixel_positions_def visible_pixels_def)

lemma fold_min_Min:
  fixes a :: nat
  assumes "xs \<noteq> []" and "\<forall>x \<in> set xs. x \<le> a"
  shows "fold min xs a = Min (set xs)"
proof -
  have "fold min xs a = Min (set (a # xs))" by (simp only: Min.set_eq_fold)
  also have "\<dots> = min a (Min (set xs))" using assms(1) by simp
  also have "\<dots> = Min (set xs)"
  proof -
    have "Min (set xs) \<in> set xs" using assms(1) by (intro Min_in) simp_all
    with assms(2) have "Min (set xs) \<le> a" by blast
    then show ?thesis by (simp add: min_absorb2)
  qed
  finally show ?thesis .
qed

lemma fold_max_Max:
  fixes xs :: "nat list"
  assumes "xs \<noteq> []"
  shows "fold max xs 0 = Max (set xs)"
proof -
  have "fold max xs 0 = Max (set (0 # xs))" by (simp only: Max.set_eq_fold)
  also have "\<dots> = max 0 (Max (set xs))" using assms by simp
  finally show ?thesis by simp
qed

lemma scanImage_bounding_box:
  assumes "visible_pixels im \<noteq> {}"
  shows "scanImage im = bounding_box im"
proof -
  let ?vis = "filter (\<lambda>p. alpha_positive im (fst p) (snd p)) (pixel_positions im)"
  have v: "set ?vis = visible_pixels im" by (rule set_pixel_positions)
  have "set ?vis \<noteq> {}" unfolding v by (rule assms)
  then have nv: "?vis \<noteq> []" by (simp only: set_empty not_False_eq_True)
  then have ne: "map fst ?vis \<noteq> []" "map snd ?vis \<noteq> []" by simp_all
  have bx: "\<forall>x \<in> set (map fst ?vis). x \<le> img_width im"
    and "by": "\<forall>y \<in> set (map snd ?vis). y \<le> img_height im"
    unfolding set_map v by (auto simp: visible_pixels_def)
  have "scanImage im =
      (Min (set (map fst ?vis)), Min (set (map snd ?vis)),
       Max (set (map fst ?vis)), Max (set (map snd ?vis)))"
    by (simp only: scanImage_positions scan_fold fold_min_Min [OF ne(1) bx]
        fold_min_Min [OF ne(2) "by"] fold_max_Max [OF ne(1)] fold_max_Max [OF ne(2)])
  then show ?thesis
    by (simp only: set_map v bounding_box_def)
qed

lemma scanImage_blank:
  assumes "visible_pixels im = {}"
  shows "scanImage im = (img_width im, img_height im, 0, 0)"
proof -
  let ?vis = "filter (\<lambda>p. alpha_positive im (fst p) (snd p)) (pixel_positions im)"
  have "set ?vis = {}" by (simp only: set_pixel_positions assms)
  then have "?vis = []" by (simp only: set_empty)
  then show ?thesis
    by (simp add: scanImage_positions scan_fold)
qed

lemma handleSave_crop:
  assumes "pad_canvas pad = Some im" and "pad_hasContent pad" and "pad_ctx pad"
    and "pad_croppedCtx pad"
    and "visible_pixels im \<noteq> {}"
    and "bounding_box im = (minX, minY, maxX, maxY)"
  shows "handleSave pad = Some
     \<lparr>out_width = min (int (img_width im)) (int maxX + 20) - max 0 (int minX - 20),
      out_height = min (int (img_height im)) (int maxY + 20) - max 0 (int minY - 20),
      src_x = max 0 (int minX - 20),
      src_y = max 0 (int minY - 20),
      src_width = min (int (img_width im)) (int maxX + 20) - max 0 (int minX - 20),
      src_height = min (int (img_height im)) (int maxY + 20) - max 0 (int minY - 20),
      dst_x = 0, dst_y = 0,
      dst_width = min (int (img_width im)) (int maxX + 20) - max 0 (int minX - 20),
      dst_height = min (int (img_height im)) (int maxY + 20) - max 0 (int minY - 20)\<rparr>"
  using assms scanImage_bounding_box [OF assms(5)]
  by (simp add: handleSave_def Let_def)

text \<open>
  The instance of the specification: pixels bounded by \<open>[10, 10]\<close> and \<open>[90, 40]\<close> on a
  surface of 200 by 200 give the region from \<open>[0, 0]\<close> to \<open>[110, 60]\<close>.
\<close>

lemma crop_example:
  assumes "pad_canvas pad = Some im" and "pad_hasContent pad" and "pad_ctx pad"
    and "pad_croppedCtx pad"
    and "img_width im = 200" and "img_height im = 200"
    and "visible_pixels im \<noteq> {}"
    and "bounding_box im = (10, 10, 90, 40)"
  shows "handleSave pad = Some
     \<lparr>out_width = 110, out_height = 60, src_x = 0, src_y = 0,
      src_width = 110, src_height = 60, dst_x = 0, dst_y = 0,
      dst_width = 110, dst_height = 60\<rparr>"
  using handleSave_crop [OF assms(1-4,7,8)] assms(5,6) by simp

text \<open>
  The part of claim C6 about the crop. With the canvas and both contexts available and
  the \<open>hasContent\<close> flag set, for every raster that holds a pixel of alpha greater than
  0, whose bounding box is \<open>[minX, minY]\<close> to \<open>[maxX, maxY]\<close>, the source rectangle of the
  copy starts at \<open>max 0 (minX - 20)\<close>, \<open>max 0 (minY - 20)\<close> and ends at
  \<open>min width (maxX + 20)\<close>, \<open>min height (maxY + 20)\<close>, and it is drawn at the origin of a
  fresh canvas of exactly its size, unscaled. With the flag not set nothing is produced.
\<close>

lemma signature_crop:
  assumes "pad_canvas pad = Some im"
  shows "(pad_hasContent pad \<and> pad_ctx pad \<and> pad_croppedCtx pad
          \<and> visible_pixels im \<noteq> {} \<and> bounding_box im = (minX, minY, maxX, maxY) \<longrightarrow>
            handleSave pad = Some
              \<lparr>out_width = min (int (img_width im)) (int maxX + 20) - max 0 (int minX - 20),
               out_height = min (int (img_height im)) (int maxY + 20) - max 0 (int minY - 20),
               src_x = max 0 (int minX - 20),
               src_y = max 0 (int minY - 20),
               src_width = min (int (img_width im)) (int maxX + 20) - max 0 (int minX - 20),
               src_height = min (int (img_height im)) (int maxY + 20) - max 0 (int minY - 20),
               dst_x = 0, dst_y = 0,
               dst_width = min (int (img_width im)) (int maxX + 20) - max 0 (int minX - 20),
               dst_height = min (int (img_height im)) (int maxY + 20) - max 0 (int minY - 20)\<rparr>)
       \<and> (\<not> pad_hasContent pad \<longrightarrow> handleSave pad = None)"
proof -
  have "handleSave pad = None" if "\<not> pad_hasContent pad"
    using that assms by (simp add: handleSave_def)
  then show ?thesis
    using handleSave_crop [OF assms] by blast
qed

lemma data_sample_raster:
  assumes "k < 12000"
  shows "img_data sample_raster ! k = (if k = 5383 \<or> k = 5883 then 255 else 0)"
proof -
  have "[0..<12000] ! k = k" using assms nth_upt [of 0 k 12000] by (simp only: add_0)
  moreover have "k < length [0..<12000]" using assms by (simp only: length_upt diff_zero)
  ultimately have "map (\<lambda>k. if k = 5383 \<or> k = 5883 then 255 else 0) [0..<12000] ! k =
      (if k = 5383 \<or> k = 5883 then 255 else (0::nat))"
    by (simp only: nth_map)
  then show ?thesis
    by (simp only: sample_raster_def image_data.select_convs)
qed

lemma length_sample_raster: "length (img_data sample_raster) = 12000"
  by (simp only: sample_raster_def image_data.select_convs length_map length_upt diff_zero)

lemma index_inverse:
  fixes x y :: nat
  assumes "x < 60"
  shows "(y * 60 + x) * 4 + 3 = 5383 \<longleftrightarrow> x = 25 \<and> y = 22"
    and "(y * 60 + x) * 4 + 3 = 5883 \<longleftrightarrow> x = 30 \<and> y = 24"
proof -
  have d: "(y * 60 + x) div 60 = y" and m: "(y * 60 + x) mod 60 = x"
    using assms by simp_all
  show "(y * 60 + x) * 4 + 3 = 5383 \<longleftrightarrow> x = 25 \<and> y = 22"
  proof
    assume "(y * 60 + x) * 4 + 3 = 5383"
    then have "y * 60 + x = 1345" by simp
    with d m show "x = 25 \<and> y = 22" by simp
  qed simp
  show "(y * 60 + x) * 4 + 3 = 5883 \<longleftrightarrow> x = 30 \<and> y = 24"
  proof
    assume "(y * 60 + x) * 4 + 3 = 5883"
    then have "y * 60 + x = 1470" by simp
    with d m show "x = 30 \<and> y = 24" by simp
  qed simp
qed

lemma visible_sample_raster: "visible_pixels sample_raster = {(25, 22), (30, 24)}"
proof -
  have w: "img_width sample_raster = 60" "img_height sample_raster = 50"
    by (simp_all only: sample_raster_def image_data.select_convs)
  have a: "alpha_positive sample_raster x y \<longleftrightarrow> (x = 25 \<and> y = 22) \<or> (x = 30 \<and> y = 24)"
    if "x < 60" and "y < 50" for x y
  proof -
    define K where "K = (y * 60 + x) * 4 + 3"
    have k: "K < 12000" using that by (simp add: K_def)
    have i: "K = 5383 \<longleftrightarrow> x = 25 \<and> y = 22" "K = 5883 \<longleftrightarrow> x = 30 \<and> y = 24"
      unfolding K_def by (rule index_inverse [OF that(1)])+
    have "alpha_positive sample_raster x y \<longleftrightarrow>
        K < 12000 \<and> img_data sample_raster ! K > 0"
      by (simp only: alpha_positive_def Let_def w length_sample_raster K_def)
    also have "\<dots> \<longleftrightarrow> K = 5383 \<or> K = 5883"
      using k by (simp add: data_sample_raster)
    finally show ?thesis by (simp only: i)
  qed
  show ?thesis
    unfolding visible_pixels_def w using a by auto
qed

lemma bounding_box_sample_raster: "bounding_box sample_raster = (25, 22, 30, 24)"
  by (simp add: bounding_box_def visible_sample_raster)

lemma signature_crop_example:
  "handleSave sample_pad = Some
     \<lparr>out_width = 45, out_height = 42, src_x = 5, src_y = 2,
      src_width = 45, src_height = 42, dst_x = 0, dst_y = 0,
      dst_width = 45, dst_height = 42\<rparr>
   \<and> handleSave (sample_pad\<lparr>pad_hasContent := False\<rparr>) = None"
proof -
  have c: "pad_canvas sample_pad = Some sample_raster"
    "pad_canvas (sample_pad\<lparr>pad_hasContent := False\<rparr>) = Some sample_raster"
    and f: "pad_hasContent sample_pad" "pad_ctx sample_pad" "pad_croppedCtx sample_pad"
      "\<not> pad_hasContent (sample_pad\<lparr>pad_hasContent := False\<rparr>)"
    by (simp_all add: sample_pad_def)
  have w: "img_width sample_raster = 60" "img_height sample_raster = 50"
    by (simp_all only: sample_raster_def image_data.select_convs)
  have v: "visible_pixels sample_raster \<noteq> {}"
    by (simp add: visible_sample_raster)
  show ?thesis
    using signature_crop [OF c(1), of 25 22 30 24] signature_crop [OF c(2)]
      f v bounding_box_sample_raster
    by (simp add: w)
qed

section \<open>Saving after the canvas was reset\<close>

lemma visible_blank_raster: "visible_pixels (blank_raster w h) = {}"
  by (simp add: visible_pixels_def alpha_positive_def blank_raster_def Let_def)

lemma setupCanvas_keeps_flag: "pad_hasContent (setupCanvas w h pad) = pad_hasContent pad"
  by (simp add: setupCanvas_def split: option.split)

lemma clearCanvas_resets_flag:
  assumes "pad_canvas pad \<noteq> None" and "pad_container pad" and "pad_ctx pad"
  shows "\<not> pad_hasContent (clearCanvas pad)" and "handleSave (clearCanvas pad) = None"
  using assms by (auto simp: clearCanvas_def handleSave_def)

lemma stale_flag_general:
  assumes "pad_canvas pad \<noteq> None" and "pad_container pad" and "pad_ctx pad"
    and "pad_croppedCtx pad" and "pad_hasContent pad"
  shows "handleSave (setupCanvas w h pad) = Some
     \<lparr>out_width = min (int w) 20 - max 0 (int w - 20),
      out_height = min (int h) 20 - max 0 (int h - 20),
      src_x = max 0 (int w - 20), src_y = max 0 (int h - 20),
      src_width = min (int w) 20 - max 0 (int w - 20),
      src_height = min (int h) 20 - max 0 (int h - 20),
      dst_x = 0, dst_y = 0,
      dst_width = min (int w) 20 - max 0 (int w - 20),
      dst_height = min (int h) 20 - max 0 (int h - 20)\<rparr>"
proof -
  have "scanImage (blank_raster w h) = (w, h, 0, 0)"
    using scanImage_blank [OF visible_blank_raster, of w h] by (simp add: blank_raster_def)
  then show ?thesis
    using assms by (auto simp: setupCanvas_def handleSave_def Let_def)
      (simp_all add: blank_raster_def)
qed

text \<open>
  Claim C6, on the input where the code departs from it. The user draws a signature,
  so that the canvas holds visible pixels and \<open>hasContent\<close> is set; the window is then
  resized (or the colour changed), and \<open>setupCanvas\<close> gives the canvas a fresh bitmap of
  400 by 200 without touching the flag, which \<open>clearCanvas\<close> and \<open>handleTabChange\<close> reset
  when they clear the canvas. No pixel is visible any more, and the claim asks for no
  output. \<open>handleSave\<close> tests the flag, not the pixels: the scan keeps its initial
  values, the padded box runs from 380 to 20 and from 180 to 20, and \<open>onSave\<close> is called
  with a crop of negative extent.
\<close>

theorem stale_flag_save:
  "pad_hasContent sample_pad
   \<and> visible_pixels sample_raster \<noteq> {}
   \<and> pad_canvas (setupCanvas 400 200 sample_pad) = Some (blank_raster 400 200)
   \<and> visible_pixels (blank_raster 400 200) = {}
   \<and> pad_hasContent (setupCanvas 400 200 sample_pad)
   \<and> handleSave (setupCanvas 400 200 sample_pad) = Some
       \<lparr>out_width = - 360, out_height = - 160, src_x = 380, src_y = 180,
        src_width = - 360, src_height = - 160, dst_x = 0, dst_y = 0,
        dst_width = - 360, dst_height = - 160\<rparr>
   \<and> handleSave (clearCanvas sample_pad) = None
   \<and> handleSave (handleTabChange sample_pad) = None"
proof -
  have pad: "pad_canvas sample_pad \<noteq> None" "pad_container sample_pad" "pad_ctx sample_pad"
    "pad_croppedCtx sample_pad" "pad_hasContent sample_pad"
    by (simp_all add: sample_pad_def)
  have "handleSave (handleTabChange sample_pad) = None"
    by (simp add: handleTabChange_def handleSave_def clearCanvas_def sample_pad_def)
  moreover have "pad_canvas (setupCanvas 400 200 sample_pad) = Some (blank_raster 400 200)"
    by (simp add: setupCanvas_def sample_pad_def)
  ultimately show ?thesis
    using stale_flag_general [OF pad, of 400 200] clearCanvas_resets_flag(2) [OF pad(1-3)]
      pad(5) visible_sample_raster
    by (simp add: visible_blank_raster setupCanvas_keeps_flag)
qed

end
